theory Spec2Isabelle
  imports Complex_Main "HOL-Library.Sublist"
begin

section \<open>Python values used by converter\_gif.py\<close>

text \<open>
  Python integers are unbounded and are modelled by \<open>int\<close>; Python strings are
  modelled by \<open>string\<close>. An f-string field \<^verbatim>\<open>{int(x)}\<close> prints the decimal
  numeral of an integer, with a leading minus sign for a negative one.
\<close>

definition digit_char :: "nat \<Rightarrow> char" where
  "digit_char d = ''0123456789'' ! d"

fun str_nat :: "nat \<Rightarrow> string" where
  "str_nat n =
     (if n < 10 then [digit_char n]
      else str_nat (n div 10) @ [digit_char (n mod 10)])"

declare str_nat.simps [simp del]

definition str_int :: "int \<Rightarrow> string" where
  "str_int i = (if i < 0 then CHR ''-'' # str_nat (nat (- i)) else str_nat (nat i))"

text \<open>The two characters of the source's literals that a HOL string literal cannot hold.\<close>

definition backslash :: char where
  "backslash = CHR 0x5C"

definition dquote :: char where
  "dquote = CHR 0x22"

text \<open>\<^verbatim>\<open>sep.join(xs)\<close>\<close>

fun join :: "string \<Rightarrow> string list \<Rightarrow> string" where
  "join sep [] = []"
| "join sep [x] = x"
| "join sep (x # y # ys) = x @ sep @ join sep (y # ys)"

text \<open>
  Truthiness of \<^verbatim>\<open>max_w\<close>, which is \<^verbatim>\<open>None\<close> or an integer: \<^verbatim>\<open>None\<close> and
  \<^verbatim>\<open>0\<close> are false.
\<close>

definition truthy_int :: "int option \<Rightarrow> bool" where
  "truthy_int v = (case v of None \<Rightarrow> False | Some n \<Rightarrow> n \<noteq> 0)"

section \<open>The filter chain (make\_gif\_im, lines 80 to 90)\<close>

text \<open>
  The literal of line 87,
  \<^verbatim>\<open>f"scale=if(gt(iw\\,{int(max_w)})\\,{int(max_w)}\\,iw):-1:flags=lanczos"\<close>;
  in Python source text \<^verbatim>\<open>\\\<close> is one backslash character.
\<close>

definition scale_clause :: "int \<Rightarrow> string" where
  "scale_clause w =
     ''scale=if(gt(iw'' @ [backslash] @ '','' @ str_int w @ '')'' @ [backslash] @ '','' @
     str_int w @ [backslash] @ '',iw):-1:flags=lanczos''"

definition filters :: "int \<Rightarrow> int option \<Rightarrow> string list" where
  "filters fps max_w =
     [''fps='' @ str_int fps] @
     (if truthy_int max_w then [scale_clause (the max_w)] else []) @
     [''format=rgba'']"

definition vf :: "int \<Rightarrow> int option \<Rightarrow> string" where
  "vf fps max_w = join '','' (filters fps max_w)"

text \<open>
  The width expression that the scale clause hands to the transcoder is written in the
  transcoder's expression language. The transcoder is not part of the repository; of its
  language only the three forms that the source's literal uses are described here: the
  input width \<^verbatim>\<open>iw\<close>, a constant, \<^verbatim>\<open>gt(a,b)\<close> (1 when \<open>a > b\<close>, else 0) and
  \<^verbatim>\<open>if(c,a,b)\<close> (\<open>a\<close> when \<open>c\<close> is not 0, else \<open>b\<close>). Inside a filter string
  the commas of an expression are escaped by a backslash. This is the reading that the
  source's own comment on line 85 gives: \<^verbatim>\<open>width = if(iw > max_w) max_w else iw\<close>.
\<close>

datatype wexpr = IW | Const int | Gt wexpr wexpr | If wexpr wexpr wexpr

fun render :: "wexpr \<Rightarrow> string" where
  "render IW = ''iw''"
| "render (Const n) = str_int n"
| "render (Gt a b) = ''gt('' @ render a @ [backslash] @ '','' @ render b @ '')''"
| "render (If c a b) =
     ''if('' @ render c @ [backslash] @ '','' @ render a @ [backslash] @ '','' @
     render b @ '')''"

fun eval_wexpr :: "int \<Rightarrow> wexpr \<Rightarrow> int" where
  "eval_wexpr iw IW = iw"
| "eval_wexpr iw (Const n) = n"
| "eval_wexpr iw (Gt a b) = (if eval_wexpr iw b < eval_wexpr iw a then 1 else 0)"
| "eval_wexpr iw (If c a b) =
     (if eval_wexpr iw c \<noteq> 0 then eval_wexpr iw a else eval_wexpr iw b)"

definition width_expr :: "int \<Rightarrow> wexpr" where
  "width_expr w = If (Gt IW (Const w)) (Const w) IW"

section \<open>The stage commands (make\_gif\_im, lines 100 to 129)\<close>

text \<open>
  Stages 1 and 2 are started from an argument list, stage 3 from a shell command line
  (\<^verbatim>\<open>shell=True\<close>).
\<close>

datatype command = Argv "string list" | Shell string

fun argv :: "command \<Rightarrow> string list" where
  "argv (Argv xs) = xs"
| "argv (Shell s) = []"

definition extract_cmd :: "string \<Rightarrow> string \<Rightarrow> string \<Rightarrow> string \<Rightarrow> command" where
  "extract_cmd ffmpeg in_path v frames_pat =
     Argv [ffmpeg, ''-y'', ''-i'', in_path, ''-vf'', v, frames_pat]"

definition palette_cmd :: "string \<Rightarrow> string \<Rightarrow> string \<Rightarrow> string \<Rightarrow> command" where
  "palette_cmd ffmpeg in_path v palette =
     Argv [ffmpeg, ''-y'', ''-i'', in_path, ''-vf'',
           v @ '',palettegen=stats_mode=full'', palette]"

definition assemble_cmd ::
  "string \<Rightarrow> int \<Rightarrow> string \<Rightarrow> string \<Rightarrow> string \<Rightarrow> string \<Rightarrow> command" where
  "assemble_cmd im delay frames_glob palette dither out_path =
     Shell ([dquote] @ im @ [dquote] @ '' -delay '' @ str_int delay @ '' -loop 0 '' @
            [dquote] @ frames_glob @ [dquote] @ '' -remap '' @ [dquote] @ palette @ [dquote] @
            '' -dither '' @ dither @ '' '' @
            ''-layers OptimizeTransparency '' @ [dquote] @ out_path @ [dquote])"

text \<open>
  The parameter \<^verbatim>\<open>dither="FloydSteinberg"\<close> of line 62: a caller that passes no
  dither (\<open>None\<close>) gets the default of the signature.
\<close>

definition dither_arg :: "string option \<Rightarrow> string" where
  "dither_arg d = (case d of None \<Rightarrow> ''FloydSteinberg'' | Some x \<Rightarrow> x)"

section \<open>The frame delay (make\_gif\_im, line 93)\<close>

text \<open>
  \<^verbatim>\<open>delay_cs = max(1, round(100 / float(fps)))\<close>. A finite double is a rational
  number, so doubles are modelled by the rationals they denote, and every operation rounds
  its exact result to the nearest double, ties to the even significand
  (\<open>fl53\<close>: 53 significant bits). Python's \<^verbatim>\<open>float(n)\<close> raises OverflowError when
  the rounded value does not fit a double, \<^verbatim>\<open>/\<close> raises ZeroDivisionError on a zero
  divisor, and \<^verbatim>\<open>round(x)\<close> of a double is the nearest integer, ties to the even
  one. The quotient \<open>100 / x\<close> of a double \<open>x\<close> that came from a non-zero integer has
  magnitude between \<open>100 / 2^1024\<close> and \<open>100\<close>, inside the range of normal doubles,
  so no gradual underflow and no overflow occurs in the division.
\<close>

datatype error =
    RuntimeError string
  | CalledProcessError int command string string
  | OSError string
  | UnicodeDecodeError
  | ZeroDivisionError
  | OverflowError

fun bit_length :: "nat \<Rightarrow> nat" where
  "bit_length n = (if n = 0 then 0 else Suc (bit_length (n div 2)))"

declare bit_length.simps [simp del]

definition pow2 :: "int \<Rightarrow> rat" where
  "pow2 k = (if 0 \<le> k then 2 ^ nat k else 1 / 2 ^ nat (- k))"

definition round_half_even :: "rat \<Rightarrow> int" where
  "round_half_even x =
     (let f = \<lfloor>x\<rfloor>; d = x - of_int f
      in if d < 1 / 2 then f
         else if 1 / 2 < d then f + 1
         else if even f then f else f + 1)"

text \<open>The exponent \<open>e\<close> with \<open>2^e \<le> x < 2^(e+1)\<close>, for \<open>x > 0\<close>.\<close>

definition ilog2 :: "rat \<Rightarrow> int" where
  "ilog2 x =
     (if 1 \<le> x then int (bit_length (nat \<lfloor>x\<rfloor>)) - 1
      else let k = int (bit_length (nat \<lfloor>1 / x\<rfloor>)) - 1
           in if x = pow2 (- k) then - k else - (k + 1))"

definition fl53 :: "rat \<Rightarrow> rat" where
  "fl53 x =
     (if x = 0 then 0
      else let u = pow2 (ilog2 \<bar>x\<bar> - 52)
           in of_int (round_half_even (x / u)) * u)"

definition py_float :: "int \<Rightarrow> error + rat" where
  "py_float n =
     (let x = fl53 (of_int n)
      in if pow2 1024 \<le> \<bar>x\<bar> then Inl OverflowError else Inr x)"

definition float_div :: "rat \<Rightarrow> rat \<Rightarrow> error + rat" where
  "float_div a b = (if b = 0 then Inl ZeroDivisionError else Inr (fl53 (a / b)))"

definition delay_cs :: "int \<Rightarrow> error + int" where
  "delay_cs fps =
     (case py_float fps of
        Inl e \<Rightarrow> Inl e
      | Inr x \<Rightarrow>
          (case float_div 100 x of
             Inl e \<Rightarrow> Inl e
           | Inr q \<Rightarrow> Inr (max 1 (round_half_even q))))"

text \<open>
  The formula in the words of the specification, \<open>max(1, round(100 / fps))\<close>, over exact
  rationals, with the rounding of the source language (ties to the even integer).
\<close>

definition spec_delay :: "int \<Rightarrow> int" where
  "spec_delay fps = max 1 (round_half_even (100 / of_int fps))"

section \<open>The environment of a run\<close>

text \<open>
  What an external process did: it exited with a return code, its captured standard output
  and its captured standard error, both decoded as text; or it exited with a return code
  and captured output that is not text in the encoding of the locale; or it could not be
  started (\<^verbatim>\<open>subprocess.run\<close> raises an OSError). An invocation is in order when it
  exited with status 0 and its output is text.
\<close>

datatype outcome = Exited int string string | Undecodable int | NotStarted string

fun exited_ok :: "outcome \<Rightarrow> bool" where
  "exited_ok (Exited rc out err) = (rc = 0)"
| "exited_ok (Undecodable rc) = False"
| "exited_ok (NotStarted m) = False"

text \<open>The dialogs shown, each with its title; an error dialog also with its message.\<close>

datatype dialog =
    ShowInfo string
  | ShowError string string
  | AskYesNo string
  | AskString string
  | AskOpenFile string
  | AskSaveFile string

text \<open>
  The world is the set of paths that exist in the file system, the external invocations
  made so far with what each did, the temporary directories created so far, and the dialogs
  shown so far.
\<close>

record world =
  files :: "string set"
  started :: "(command \<times> outcome) list"
  tempdirs :: "string list"
  dialogs :: "dialog list"

text \<open>
  The collaborators outside the repository are parameters: the lookup of the transcoder
  (\<^verbatim>\<open>iioff.get_ffmpeg_exe()\<close>), the search path (\<^verbatim>\<open>shutil.which\<close>), the choice of
  a fresh temporary directory, what an external process does to the file system and how it
  ends, the text of an exception (\<^verbatim>\<open>str(e)\<close>), and the platform names. So are the two
  text functions of the interpreter that the program calls, \<^verbatim>\<open>str.strip()\<close> and
  \<^verbatim>\<open>int(s)\<close> (\<open>None\<close> when it raises ValueError): which characters are white space
  and which are decimal digits is laid down in the character tables of the interpreter, for
  all of Unicode, and nothing is assumed about them here.
\<close>

record env =
  get_ffmpeg_exe :: "error + string"
  which :: "string \<Rightarrow> string option"
  mkdtemp :: "string set \<Rightarrow> error + string"
  run_process :: "command \<Rightarrow> string set \<Rightarrow> outcome \<times> string set"
  exc_str :: "error \<Rightarrow> string"
  py_strip :: "string \<Rightarrow> string"
  py_int :: "string \<Rightarrow> int option"
  os_name :: string
  sys_platform :: string

text \<open>
  \<^verbatim>\<open>subprocess.run(cmd, check=True, stdout=PIPE, stderr=PIPE, text=True)\<close>: with
  \<^verbatim>\<open>text=True\<close> the captured output is decoded first, which raises a
  UnicodeDecodeError when it is not text; after that, with \<^verbatim>\<open>check=True\<close>, a return
  code other than 0 raises a CalledProcessError that holds the return code, the command and
  both captured texts.
\<close>

definition check_outcome :: "command \<Rightarrow> outcome \<Rightarrow> error + unit" where
  "check_outcome c out =
     (case out of
        NotStarted m \<Rightarrow> Inl (OSError m)
      | Undecodable rc \<Rightarrow> Inl UnicodeDecodeError
      | Exited rc so se \<Rightarrow>
          if rc \<noteq> 0 then Inl (CalledProcessError rc c so se) else Inr ())"

definition subprocess_run :: "env \<Rightarrow> command \<Rightarrow> world \<Rightarrow> (error + unit) \<times> world" where
  "subprocess_run env c w =
     (let (out, fs) = run_process env c (files w)
      in (check_outcome c out, w\<lparr>files := fs, started := started w @ [(c, out)]\<rparr>))"

text \<open>\<^verbatim>\<open>os.path.join(a, b)\<close> on a POSIX system.\<close>

definition path_join :: "string \<Rightarrow> string \<Rightarrow> string" where
  "path_join a b =
     (if b \<noteq> [] \<and> hd b = CHR ''/'' then b
      else if a = [] \<or> last a = CHR ''/'' then a @ b
      else a @ ''/'' @ b)"

text \<open>The paths that removing the tree at \<open>td\<close> removes: \<open>td\<close> and all below it.\<close>

definition in_tree :: "string \<Rightarrow> string \<Rightarrow> bool" where
  "in_tree td p = (p = td \<or> prefix (path_join td []) p)"

definition cleanup :: "string \<Rightarrow> world \<Rightarrow> world" where
  "cleanup td w = w\<lparr>files := {p \<in> files w. \<not> in_tree td p}\<rparr>"

text \<open>
  \<^verbatim>\<open>with tempfile.TemporaryDirectory() as td: body\<close>: the directory is created, the
  body runs, and on leaving the block, normally or by an exception, the directory tree is
  removed; an exception of the body is raised again after that.
\<close>

definition with_temporary_directory ::
  "env \<Rightarrow> (string \<Rightarrow> world \<Rightarrow> (error + unit) \<times> world) \<Rightarrow> world \<Rightarrow> (error + unit) \<times> world" where
  "with_temporary_directory env body w =
     (case mkdtemp env (files w) of
        Inl e \<Rightarrow> (Inl e, w)
      | Inr td \<Rightarrow>
          (let w0 = w\<lparr>files := insert td (files w), tempdirs := tempdirs w @ [td]\<rparr>;
               (r, w1) = body td w0
           in (r, cleanup td w1)))"

section \<open>The tool locator (\_find\_imagemagick, lines 48 to 59)\<close>

text \<open>Truthiness of the result of \<^verbatim>\<open>which\<close>: \<^verbatim>\<open>None\<close> and the empty string are false.\<close>

definition truthy_str :: "string option \<Rightarrow> bool" where
  "truthy_str v = (case v of None \<Rightarrow> False | Some s \<Rightarrow> s \<noteq> [])"

definition find_imagemagick :: "env \<Rightarrow> string option" where
  "find_imagemagick env =
     (let magick = which env ''magick''
      in if truthy_str magick then magick
         else let convert = which env ''convert''
              in if truthy_str convert then convert else None)"

section \<open>The pipeline executor (make\_gif\_im, lines 62 to 131)\<close>

definition im_not_found :: string where
  "im_not_found =
     ''ImageMagick not found. Install it (e.g., `sudo apt install -y imagemagick`).''"

text \<open>The body of the \<^verbatim>\<open>with\<close> block, lines 101 to 129.\<close>

definition pipeline ::
  "env \<Rightarrow> string \<Rightarrow> string \<Rightarrow> string \<Rightarrow> string \<Rightarrow> string \<Rightarrow> int \<Rightarrow> string \<Rightarrow>
   string \<Rightarrow> world \<Rightarrow> (error + unit) \<times> world" where
  "pipeline env ffmpeg im in_path out_path v delay dither td w =
     (let frames_pat = path_join td ''f_%06d.png'';
          frames_glob = path_join td ''f_*.png'';
          palette = path_join td ''palette.png''
      in case subprocess_run env (extract_cmd ffmpeg in_path v frames_pat) w of
           (Inl e, w1) \<Rightarrow> (Inl e, w1)
         | (Inr p1, w1) \<Rightarrow>
             (case subprocess_run env (palette_cmd ffmpeg in_path v palette) w1 of
                (Inl e, w2) \<Rightarrow> (Inl e, w2)
              | (Inr p2, w2) \<Rightarrow>
                  subprocess_run env
                    (assemble_cmd im delay frames_glob palette dither out_path) w2))"

definition make_gif_im ::
  "env \<Rightarrow> string \<Rightarrow> string \<Rightarrow> int \<Rightarrow> int option \<Rightarrow> string option \<Rightarrow> world \<Rightarrow>
   (error + unit) \<times> world" where
  "make_gif_im env in_path out_path fps max_w dither w =
     (case get_ffmpeg_exe env of
        Inl e \<Rightarrow> (Inl e, w)
      | Inr ffmpeg \<Rightarrow>
          (let im = find_imagemagick env
           in if \<not> truthy_str im then (Inl (RuntimeError im_not_found), w)
              else
                (let v = vf fps max_w
                 in case delay_cs fps of
                      Inl e \<Rightarrow> (Inl e, w)
                    | Inr delay \<Rightarrow>
                        with_temporary_directory env
                          (pipeline env ffmpeg (the im) in_path out_path v delay
                             (dither_arg dither))
                          w)))"

section \<open>Parameter collection (ask\_number, lines 27 to 45)\<close>

definition show_dialog :: "dialog \<Rightarrow> world \<Rightarrow> world" where
  "show_dialog d w = w\<lparr>dialogs := dialogs w @ [d]\<rparr>"

text \<open>
  A prompt either returns, or it is still open when the user's answers have run out.
\<close>

datatype 'a prompt = Answered 'a | Waiting

text \<open>
  \<^verbatim>\<open>ask_number(title, prompt, initialvalue, minval, maxval, integer=True)\<close>, as both
  calls in \<^verbatim>\<open>main\<close> have it. The list holds what the user submits to the successive
  text dialogs of this prompt; \<open>None\<close> is a cancelled dialog.
\<close>

fun ask_number ::
  "env \<Rightarrow> string \<Rightarrow> int \<Rightarrow> int \<Rightarrow> string option list \<Rightarrow> world \<Rightarrow>
   int option prompt \<times> world" where
  "ask_number env title minval maxval [] w = (Waiting, show_dialog (AskString title) w)"
| "ask_number env title minval maxval (a # rest) w =
     (let w1 = show_dialog (AskString title) w
      in case a of
           None \<Rightarrow> (Answered None, w1)
         | Some val \<Rightarrow>
             (let v = py_strip env val
              in if v = [] then (Answered None, w1)
                 else
                   (case py_int env v of
                      None \<Rightarrow>
                        ask_number env title minval maxval rest
                          (show_dialog (ShowError title ''Please enter a valid number.'') w1)
                    | Some num \<Rightarrow>
                        if num < minval \<or> maxval < num
                        then ask_number env title minval maxval rest
                               (show_dialog
                                  (ShowError title
                                     (''Enter a value between '' @ str_int minval @
                                      '' and '' @ str_int maxval @ ''.''))
                                  w1)
                        else (Answered (Some num), w1))))"

text \<open>
  A submitted answer is blank when the dialog was cancelled or the text is empty after
  stripping; it is accepted when it is blank or reads as an integer inside the range.
\<close>

definition blank :: "env \<Rightarrow> string option \<Rightarrow> bool" where
  "blank env a = (case a of None \<Rightarrow> True | Some s \<Rightarrow> py_strip env s = [])"

definition accepted :: "env \<Rightarrow> int \<Rightarrow> int \<Rightarrow> string option \<Rightarrow> bool" where
  "accepted env minval maxval a =
     (blank env a \<or>
      (case py_int env (py_strip env (the a)) of
         None \<Rightarrow> False
       | Some num \<Rightarrow> minval \<le> num \<and> num \<le> maxval))"

text \<open>The dialogs that a numeric prompt shows.\<close>

fun prompt_dialog :: "dialog \<Rightarrow> bool" where
  "prompt_dialog (AskString t) = True"
| "prompt_dialog (ShowError t m) = True"
| "prompt_dialog d = False"

section \<open>The program (main, lines 134 to 222)\<close>

text \<open>What the user does in the dialogs of one run.\<close>

record user =
  open_choice :: string
  confirm_non_webm :: bool
  save_choice :: string
  fps_answers :: "string option list"
  width_answers :: "string option list"
  open_folder :: bool

text \<open>\<^verbatim>\<open>str.lower()\<close> and \<^verbatim>\<open>str.endswith()\<close>, on ASCII letters.\<close>

definition lower_char :: "char \<Rightarrow> char" where
  "lower_char c =
     (case map_of (zip ''ABCDEFGHIJKLMNOPQRSTUVWXYZ'' ''abcdefghijklmnopqrstuvwxyz'') c of
        None \<Rightarrow> c
      | Some l \<Rightarrow> l)"

definition lower :: "string \<Rightarrow> string" where
  "lower s = map lower_char s"

definition endswith :: "string \<Rightarrow> string \<Rightarrow> bool" where
  "endswith s suf = suffix suf s"

text \<open>\<^verbatim>\<open>os.path.dirname\<close> on a POSIX system.\<close>

definition dirname :: "string \<Rightarrow> string" where
  "dirname p =
     (let head = rev (dropWhile (\<lambda>c. c \<noteq> CHR ''/'') (rev p))
      in if head \<noteq> [] \<and> (\<exists>c \<in> set head. c \<noteq> CHR ''/'')
         then rev (dropWhile (\<lambda>c. c = CHR ''/'') (rev head))
         else head)"

definition newline :: char where
  "newline = CHR 0x0A"

text \<open>\<^verbatim>\<open>str(e)\<close> of an exception; that of a RuntimeError is its message.\<close>

definition str_exc :: "env \<Rightarrow> error \<Rightarrow> string" where
  "str_exc env e = (case e of RuntimeError m \<Rightarrow> m | _ \<Rightarrow> exc_str env e)"

text \<open>The two handlers of lines 218 to 222.\<close>

definition report_failure :: "env \<Rightarrow> error \<Rightarrow> world \<Rightarrow> world" where
  "report_failure env e w =
     (case e of
        CalledProcessError rc c so se \<Rightarrow>
          (let msg = (if se \<noteq> [] then py_strip env se else str_exc env e)
           in show_dialog (ShowError ''Error'' (''Conversion failed:'' @ [newline] @ msg)) w)
      | _ \<Rightarrow>
          show_dialog (ShowError ''Error'' (''Conversion failed:'' @ [newline] @ str_exc env e)) w)"

text \<open>\<^verbatim>\<open>subprocess.run(cmd)\<close> without \<^verbatim>\<open>check\<close>, as lines 212 and 214 call it.\<close>

definition subprocess_run_unchecked :: "env \<Rightarrow> command \<Rightarrow> world \<Rightarrow> world" where
  "subprocess_run_unchecked env c w =
     (let (out, fs) = run_process env c (files w)
      in w\<lparr>files := fs, started := started w @ [(c, out)]\<rparr>)"

text \<open>
  Lines 205 to 216. Every exception of this step is swallowed. \<^verbatim>\<open>os.startfile\<close> is
  not a subprocess of the program and leaves the modelled world as it is.
\<close>

definition open_folder_step :: "env \<Rightarrow> user \<Rightarrow> string \<Rightarrow> world \<Rightarrow> world" where
  "open_folder_step env u out_path w =
     (let folder = dirname out_path;
          w1 = show_dialog (AskYesNo ''Open Folder?'') w
      in if open_folder u
         then (if os_name env = ''nt'' then w1
               else if sys_platform env = ''darwin''
               then subprocess_run_unchecked env (Argv [''open'', folder]) w1
               else subprocess_run_unchecked env (Argv [''xdg-open'', folder]) w1)
         else w1)"

text \<open>Lines 192 to 222: the call of the executor, with the dither that main passes.\<close>

definition conversion ::
  "env \<Rightarrow> user \<Rightarrow> string \<Rightarrow> string \<Rightarrow> int \<Rightarrow> int option \<Rightarrow> world \<Rightarrow> world" where
  "conversion env u in_path out_path fps max_w w =
     (case make_gif_im env in_path out_path fps max_w (Some ''Riemersma'')
             (show_dialog (ShowInfo ''Converting'') w) of
        (Inl e, w2) \<Rightarrow> report_failure env e w2
      | (Inr r, w2) \<Rightarrow> open_folder_step env u out_path (show_dialog (ShowInfo ''Done'') w2))"

text \<open>Lines 171 to 189.\<close>

definition settings ::
  "env \<Rightarrow> user \<Rightarrow> world \<Rightarrow> (int \<times> int option) prompt \<times> world" where
  "settings env u w =
     (case ask_number env ''Frames per Second'' 1 60 (fps_answers u) w of
        (Waiting, w1) \<Rightarrow> (Waiting, w1)
      | (Answered r, w1) \<Rightarrow>
          (let fps = (case r of None \<Rightarrow> 15 | Some n \<Rightarrow> n)
           in case ask_number env ''Max Width (optional)'' 32 4096 (width_answers u) w1 of
                (Waiting, w2) \<Rightarrow> (Waiting, w2)
              | (Answered max_w, w2) \<Rightarrow> (Answered (fps, max_w), w2)))"

text \<open>Lines 157 to 222, the run from the choice of the target on.\<close>

definition main_from_save :: "env \<Rightarrow> user \<Rightarrow> string \<Rightarrow> world \<Rightarrow> unit prompt \<times> world" where
  "main_from_save env u in_path w =
     (let w1 = show_dialog (AskSaveFile ''Save GIF as...'') w;
          out_path = save_choice u
      in if out_path = [] then (Answered (), w1)
         else
           (case settings env u w1 of
              (Waiting, w2) \<Rightarrow> (Waiting, w2)
            | (Answered (fps, max_w), w2) \<Rightarrow>
                (Answered (), conversion env u in_path out_path fps max_w w2)))"

definition main :: "env \<Rightarrow> user \<Rightarrow> world \<Rightarrow> unit prompt \<times> world" where
  "main env u w =
     (let w1 = show_dialog (ShowInfo (''WEBM '' @ [CHR 0xE2, CHR 0x86, CHR 0x92] @ '' GIF'')) w;
          w2 = show_dialog (AskOpenFile ''Select a WEBM file'') w1;
          in_path = open_choice u
      in if in_path = [] then (Answered (), w2)
         else if \<not> endswith (lower in_path) ''.webm''
         then (let w3 = show_dialog (AskYesNo ''Continue?'') w2
               in if \<not> confirm_non_webm u then (Answered (), w3)
                  else main_from_save env u in_path w3)
         else main_from_save env u in_path w2)"

text \<open>The events that a call added to a log of the world.\<close>

definition new_started :: "world \<Rightarrow> world \<Rightarrow> (command \<times> outcome) list" where
  "new_started w w' = drop (length (started w)) (started w')"

definition new_dialogs :: "world \<Rightarrow> world \<Rightarrow> dialog list" where
  "new_dialogs w w' = drop (length (dialogs w)) (dialogs w')"

definition new_tempdirs :: "world \<Rightarrow> world \<Rightarrow> string list" where
  "new_tempdirs w w' = drop (length (tempdirs w)) (tempdirs w')"

section \<open>A sample environment\<close>

text \<open>
  A POSIX machine on which the transcoder is installed, with a given search path and a
  given behaviour of the external processes, and a world that holds the input file only.
\<close>

text \<open>
  The text functions of the sample environment. On ASCII text \<^verbatim>\<open>str.strip()\<close> removes
  the white space at both ends, and \<^verbatim>\<open>int(s)\<close> reads, between white space, an optional
  sign and decimal digits, where single underscores may stand between digits. The texts of
  the sample runs are ASCII.
\<close>

definition is_space :: "char \<Rightarrow> bool" where
  "is_space c = ((of_char c :: nat) \<in> {9, 10, 11, 12, 13, 28, 29, 30, 31, 32})"

definition sample_strip :: "string \<Rightarrow> string" where
  "sample_strip s = rev (dropWhile is_space (rev (dropWhile is_space s)))"

definition is_digit :: "char \<Rightarrow> bool" where
  "is_digit c = (48 \<le> (of_char c :: nat) \<and> (of_char c :: nat) \<le> 57)"

fun digits_ok :: "string \<Rightarrow> bool" where
  "digits_ok [] = False"
| "digits_ok [c] = is_digit c"
| "digits_ok (c # d # cs) =
     (is_digit c \<and> (if d = CHR ''_'' then digits_ok cs else digits_ok (d # cs)))"

fun digits_val :: "nat \<Rightarrow> string \<Rightarrow> nat" where
  "digits_val acc [] = acc"
| "digits_val acc (c # cs) =
     (if c = CHR ''_'' then digits_val acc cs
      else digits_val (10 * acc + (of_char c - 48)) cs)"

definition sample_int :: "string \<Rightarrow> int option" where
  "sample_int s0 =
     (let s = sample_strip s0;
          (neg, body) =
            (case s of
               [] \<Rightarrow> (False, s)
             | c # cs \<Rightarrow>
                 if c = CHR ''-'' then (True, cs)
                 else if c = CHR ''+'' then (False, cs)
                 else (False, s))
      in if digits_ok body
         then Some (if neg then - int (digits_val 0 body) else int (digits_val 0 body))
         else None)"

definition sample_env ::
  "(string \<Rightarrow> string option) \<Rightarrow> (command \<Rightarrow> string set \<Rightarrow> outcome \<times> string set) \<Rightarrow>
   env" where
  "sample_env wh run =
     \<lparr>get_ffmpeg_exe = Inr ''/usr/bin/ffmpeg'',
      which = wh,
      mkdtemp = (\<lambda>fs. Inr ''/tmp/tmpw''),
      run_process = run,
      exc_str = (\<lambda>e. ''error''),
      py_strip = sample_strip,
      py_int = sample_int,
      os_name = ''posix'',
      sys_platform = ''linux''\<rparr>"

definition only_magick :: "string \<Rightarrow> string option" where
  "only_magick n = (if n = ''magick'' then Some ''/usr/bin/magick'' else None)"

definition only_convert :: "string \<Rightarrow> string option" where
  "only_convert n = (if n = ''convert'' then Some ''/usr/bin/convert'' else None)"

definition no_tool :: "string \<Rightarrow> string option" where
  "no_tool n = None"

definition extract_fails :: "command \<Rightarrow> string set \<Rightarrow> outcome \<times> string set" where
  "extract_fails c fs =
     (Exited 1 [] (''boom'' @ [newline]), insert ''/tmp/tmpw/f_000001.png'' fs)"


definition no_ffmpeg :: "env \<Rightarrow> env" where
  "no_ffmpeg env = env\<lparr>get_ffmpeg_exe := Inl (RuntimeError ''No ffmpeg exe could be found.'')\<rparr>"

definition all_succeed :: "command \<Rightarrow> string set \<Rightarrow> outcome \<times> string set" where
  "all_succeed c fs = (Exited 0 [] [], insert ''/tmp/tmpw/palette.png'' fs)"

definition sample_user :: user where
  "sample_user =
     \<lparr>open_choice = ''/in/CLIP.WEBM'',
      confirm_non_webm = False,
      save_choice = ''/out/clip.gif'',
      fps_answers = [Some ''abc'', Some ''99'', Some []],
      width_answers = [None],
      open_folder = False\<rparr>"

definition world0 :: world where
  "world0 = \<lparr>files = {''/in/clip.webm''}, started = [], tempdirs = [], dialogs = []\<rparr>"

section \<open>Properties of the filter chain\<close>

lemma scale_clause_render:
  "scale_clause w = ''scale='' @ render (width_expr w) @ '':-1:flags=lanczos''"
  by (simp add: scale_clause_def width_expr_def)

lemma eval_width_expr: "eval_wexpr iw (width_expr w) = (if w < iw then w else iw)"
  by (simp add: width_expr_def)

text \<open>
  Claim C2. The filter string is a function of \<open>(fps, max_w)\<close> alone, so equal inputs
  give equal strings. Without a maximal width it is the frame-rate clause followed by the
  pixel-format clause \<^verbatim>\<open>format=rgba\<close>. With a maximal width \<open>w\<close> (not 0, which Python
  takes as absent) the scale clause stands between the two; its width expression evaluates
  to \<open>w\<close> when the source width exceeds \<open>w\<close> and to the source width otherwise, so it
  never exceeds the source width; its height is \<^verbatim>\<open>-1\<close> (kept in proportion by the
  transcoder) and its resampling flag is \<^verbatim>\<open>lanczos\<close>.
\<close>

theorem vf_fixed_order:
  "vf fps None = ''fps='' @ str_int fps @ '',format=rgba'' \<and>
   (w \<noteq> 0 \<longrightarrow>
      vf fps (Some w) =
        ''fps='' @ str_int fps @ '','' @
        ''scale='' @ render (width_expr w) @ '':-1:flags=lanczos'' @ '','' @
        ''format=rgba'') \<and>
   eval_wexpr iw (width_expr w) = (if w < iw then w else iw) \<and>
   eval_wexpr iw (width_expr w) \<le> iw \<and>
   (iw \<le> w \<longrightarrow> eval_wexpr iw (width_expr w) = iw)"
  by (simp add: vf_def filters_def truthy_int_def scale_clause_render eval_width_expr)

theorem vf_fixed_order_witness:
  "(480::int) \<noteq> 0 \<and> (320::int) \<le> 480 \<and>
   vf 15 None = ''fps=15,format=rgba'' \<and>
   vf 15 (Some 480) =
     ''fps=15,scale=if(gt(iw'' @ [CHR 0x5C] @ '',480)'' @ [CHR 0x5C] @ '',480'' @
     [CHR 0x5C] @ '',iw):-1:flags=lanczos,format=rgba'' \<and>
   eval_wexpr 320 (width_expr 480) = 320 \<and>
   eval_wexpr 1920 (width_expr 480) = 480"
  using vf_fixed_order [of 15 480 320] vf_fixed_order [of 15 480 1920]
  by (simp add: width_expr_def backslash_def str_int_def str_nat.simps digit_char_def)

section \<open>Properties of the frame delay\<close>

lemma round_half_even_of_int: "round_half_even (of_int n) = n"
  by (simp add: round_half_even_def)

lemma round_half_even_error: "\<bar>of_int (round_half_even y) - y\<bar> \<le> 1 / 2"
proof -
  have "of_int \<lfloor>y\<rfloor> \<le> y" and "y < of_int \<lfloor>y\<rfloor> + 1"
    by linarith+
  then show ?thesis
    unfolding round_half_even_def Let_def by (simp add: abs_le_iff)
qed

lemma round_half_even_quot:
  assumes "0 < n"
  shows "round_half_even (of_int p / of_int n) =
           (let q = p div n; r = p mod n
            in if 2 * r < n then q else if n < 2 * r then q + 1
               else if even q then q else q + 1)"
proof -
  have f: "\<lfloor>(of_int p / of_int n :: rat)\<rfloor> = p div n"
    by (simp add: floor_divide_of_int_eq)
  have "p = n * (p div n) + p mod n"
    by simp
  then have "(of_int p :: rat) = of_int n * of_int (p div n) + of_int (p mod n)"
    by (metis of_int_add of_int_mult)
  then have d: "(of_int p / of_int n :: rat) - of_int (p div n) = of_int (p mod n) / of_int n"
    using assms by (simp add: divide_simps)
  have "(of_int (p mod n) / of_int n < (1 / 2 :: rat)) =
          ((of_int (2 * (p mod n)) :: rat) < of_int n)"
    using assms by (simp add: field_simps)
  then have lt: "(of_int (p mod n) / of_int n < (1 / 2 :: rat)) = (2 * (p mod n) < n)"
    by (simp only: of_int_less_iff)
  have "((1 / 2 :: rat) < of_int (p mod n) / of_int n) =
          ((of_int n :: rat) < of_int (2 * (p mod n)))"
    using assms by (simp add: field_simps)
  then have gt: "((1 / 2 :: rat) < of_int (p mod n) / of_int n) = (n < 2 * (p mod n))"
    by (simp only: of_int_less_iff)
  show ?thesis
    unfolding round_half_even_def Let_def f d lt gt by simp
qed

lemma bit_length_bounds:
  "0 < n \<Longrightarrow> 2 ^ (bit_length n - 1) \<le> n \<and> n < 2 ^ bit_length n"
proof (induction n rule: bit_length.induct)
  case (1 n)
  show ?case
  proof (cases "n div 2 = 0")
    case True
    then have "n = 1" using 1 by linarith
    then show ?thesis by (simp add: bit_length.simps)
  next
    case False
    then have ih: "2 ^ (bit_length (n div 2) - 1) \<le> n div 2 \<and> n div 2 < 2 ^ bit_length (n div 2)"
      using 1 by simp
    have pos: "0 < bit_length (n div 2)"
      using False by (simp add: bit_length.simps [of "n div 2"])
    have bl: "bit_length n = Suc (bit_length (n div 2))"
      using 1(2) by (simp add: bit_length.simps [of n])
    have p: "(2::nat) ^ bit_length (n div 2) = 2 * 2 ^ (bit_length (n div 2) - 1)"
      using pos by (cases "bit_length (n div 2)") simp_all
    have h: "2 * (n div 2) \<le> n" "n < 2 * (n div 2) + 2"
      by linarith+
    have e1: "(2::nat) ^ (bit_length n - 1) = 2 ^ bit_length (n div 2)"
      using bl by simp
    have e2: "(2::nat) ^ bit_length n = 2 * 2 ^ bit_length (n div 2)"
      using bl by simp
    show ?thesis
      unfolding e1 e2 using ih p h by linarith
  qed
qed

lemma ilog2_bounds:
  assumes "1 \<le> x"
  shows "0 \<le> ilog2 x \<and> pow2 (ilog2 x) \<le> x \<and> x < pow2 (ilog2 x + 1)"
proof -
  define n where "n = nat \<lfloor>x\<rfloor>"
  define b where "b = bit_length n"
  have fl: "1 \<le> \<lfloor>x\<rfloor>" using assms by linarith
  then have npos: "0 < n" by (simp add: n_def)
  have nx: "(of_nat n :: rat) = of_int \<lfloor>x\<rfloor>"
    using fl by (simp add: n_def)
  have bpos: "0 < b"
    using npos by (simp add: b_def bit_length.simps [of n])
  have bb: "2 ^ (b - 1) \<le> n" "n < 2 ^ b"
    using bit_length_bounds [OF npos] by (simp_all add: b_def)
  have e: "ilog2 x = int b - 1"
    using assms by (simp add: ilog2_def n_def b_def)
  have p1: "pow2 (ilog2 x) = 2 ^ (b - 1)"
    using bpos by (simp add: e pow2_def nat_diff_distrib)
  have p2: "pow2 (ilog2 x + 1) = 2 ^ b"
    by (simp add: e pow2_def)
  have "(2::rat) ^ (b - 1) \<le> of_nat n"
    using bb(1) by (metis of_nat_le_iff of_nat_numeral of_nat_power)
  moreover have "of_int \<lfloor>x\<rfloor> \<le> x" by linarith
  ultimately have lo: "(2::rat) ^ (b - 1) \<le> x"
    using nx by linarith
  have "n + 1 \<le> 2 ^ b" using bb(2) by simp
  then have "(of_nat (n + 1) :: rat) \<le> 2 ^ b"
    by (metis of_nat_le_iff of_nat_numeral of_nat_power)
  then have "(of_nat n :: rat) + 1 \<le> 2 ^ b" by simp
  moreover have "x < of_int \<lfloor>x\<rfloor> + 1" by linarith
  ultimately have hi: "x < (2::rat) ^ b" using nx by linarith
  have "0 \<le> ilog2 x" using bpos by (simp add: e)
  then show ?thesis using lo hi unfolding p1 p2 by simp
qed

lemma ilog2_less:
  assumes "1 \<le> x" and "x < 2 ^ k"
  shows "ilog2 x < int k"
proof -
  have b: "0 \<le> ilog2 x" "pow2 (ilog2 x) \<le> x"
    using ilog2_bounds [OF assms(1)] by simp_all
  have "pow2 (ilog2 x) = 2 ^ nat (ilog2 x)"
    using b(1) by (simp add: pow2_def)
  then have "(2::rat) ^ nat (ilog2 x) < 2 ^ k"
    using assms(2) b(2) by linarith
  then have "nat (ilog2 x) < k" by simp
  then show ?thesis using b(1) by linarith
qed

lemma fl53_exact:
  assumes "1 \<le> x" and "ilog2 x \<le> 51" and "2 * x = of_int m"
  shows "fl53 x = x"
proof -
  define s where "s = nat (51 - ilog2 x)"
  have e0: "0 \<le> ilog2 x" using ilog2_bounds [OF assms(1)] by simp
  have u: "pow2 (ilog2 \<bar>x\<bar> - 52) = 1 / 2 ^ Suc s"
  proof -
    have "nat (52 - ilog2 x) = Suc s" using assms(2) by (simp add: s_def)
    then show ?thesis using assms(1,2) by (simp add: pow2_def)
  qed
  have "x / (1 / 2 ^ Suc s) = (2 * x) * 2 ^ s" by simp
  also have "\<dots> = of_int (m * 2 ^ s)" by (simp add: assms(3))
  finally have q: "x / (1 / 2 ^ Suc s) = of_int (m * 2 ^ s)" .
  have "fl53 x = of_int (m * 2 ^ s) * (1 / 2 ^ Suc s)"
    using assms(1) unfolding fl53_def Let_def u q round_half_even_of_int by simp
  also have "\<dots> = (2 * x) * 2 ^ s / 2 ^ Suc s" by (simp add: assms(3))
  also have "\<dots> = x" by simp
  finally show ?thesis .
qed

lemma fl53_error:
  assumes "1 \<le> x" and "x < 128"
  shows "\<bar>fl53 x - x\<bar> \<le> 1 / 2 ^ 47"
proof -
  define t where "t = nat (52 - ilog2 x)"
  have "x < 2 ^ 7" using assms(2) by simp
  then have e7: "ilog2 x < 7" using ilog2_less [OF assms(1), of 7] by simp
  have t46: "46 \<le> t" using e7 by (simp add: t_def)
  have u: "pow2 (ilog2 \<bar>x\<bar> - 52) = 1 / 2 ^ t"
    using assms(1) e7 by (simp add: pow2_def t_def)
  define y where "y = x * 2 ^ t"
  have f: "fl53 x = of_int (round_half_even y) / 2 ^ t"
    using assms(1) unfolding fl53_def Let_def u by (simp add: y_def)
  have "fl53 x - x = (of_int (round_half_even y) - y) / 2 ^ t"
    by (simp add: f y_def diff_divide_distrib)
  then have "\<bar>fl53 x - x\<bar> = \<bar>of_int (round_half_even y) - y\<bar> / 2 ^ t"
    by (simp add: abs_divide)
  also have "\<dots> \<le> (1 / 2) / 2 ^ t"
    by (rule divide_right_mono [OF round_half_even_error]) simp
  also have "\<dots> = 1 / 2 ^ Suc t" by simp
  also have "\<dots> \<le> 1 / 2 ^ 47"
  proof -
    have "(2::rat) ^ 47 \<le> 2 ^ Suc t" using t46 by (intro power_increasing) simp_all
    then show ?thesis by (simp add: frac_le)
  qed
  finally show ?thesis .
qed

lemma round_half_even_stable:
  assumes "x = of_int q + t" and "\<bar>x' - x\<bar> \<le> 1 / 2 ^ 47"
  shows "1 / 120 \<le> t \<Longrightarrow> t \<le> 1 / 2 - 1 / 120 \<Longrightarrow> round_half_even x' = q"
    and "1 / 2 + 1 / 120 \<le> t \<Longrightarrow> t \<le> 1 - 1 / 120 \<Longrightarrow> round_half_even x' = q + 1"
proof -
  have eps: "(1 / 2 ^ 47 :: rat) < 1 / 120" by simp
  have "\<bar>x' - x\<bar> < 1 / 120"
    using assms(2) eps by (rule le_less_trans)
  then have close: "x - 1 / 120 < x'" "x' < x + 1 / 120"
    by linarith+
  {
    assume t: "1 / 120 \<le> t" "t \<le> 1 / 2 - 1 / 120"
    have "of_int q \<le> x'" "x' < of_int q + 1"
      using close t assms(1) by linarith+
    then have f: "\<lfloor>x'\<rfloor> = q" by (simp add: floor_unique)
    have "x' - of_int q < 1 / 2" using close t assms(1) by linarith
    then show "round_half_even x' = q"
      by (simp add: round_half_even_def Let_def f)
  }
  {
    assume t: "1 / 2 + 1 / 120 \<le> t" "t \<le> 1 - 1 / 120"
    have "of_int q \<le> x'" "x' < of_int q + 1"
      using close t assms(1) by linarith+
    then have f: "\<lfloor>x'\<rfloor> = q" by (simp add: floor_unique)
    have "1 / 2 < x' - of_int q" using close t assms(1) by linarith
    then show "round_half_even x' = q + 1"
      by (simp add: round_half_even_def Let_def f)
  }
qed

lemma py_float_small:
  assumes "1 \<le> n" and "n \<le> 60"
  shows "py_float n = Inr (of_int n)"
proof -
  have x1: "(1::rat) \<le> of_int n" using assms(1) by simp
  have "(of_int n :: rat) < 2 ^ 6" using assms(2) by simp
  then have "ilog2 (of_int n) < 6" using ilog2_less [OF x1, of 6] by simp
  then have ex: "fl53 (of_int n) = of_int n"
    using fl53_exact [OF x1, of "2 * n"] by simp
  have "(2::rat) ^ 6 \<le> 2 ^ 1024" by (rule power_increasing) simp_all
  then have "\<bar>of_int n :: rat\<bar> < 2 ^ 1024" using assms by simp
  then show ?thesis by (simp add: py_float_def ex pow2_def)
qed

lemma round_fl53_quotient:
  assumes "1 \<le> n" and "n \<le> 60"
  shows "round_half_even (fl53 (100 / of_int n)) = round_half_even (100 / of_int n)"
proof -
  define x :: rat where "x = 100 / of_int n"
  define q where "q = 100 div n"
  define r where "r = 100 mod n"
  define rn :: rat where "rn = of_int n"
  define rr :: rat where "rr = of_int r"
  have rn: "1 \<le> rn" "rn \<le> 60" using assms by (simp_all add: rn_def)
  have r: "0 \<le> r" "r < n" using assms by (simp_all add: r_def)
  have "100 = n * q + r" by (simp add: q_def r_def)
  then have "(of_int 100 :: rat) = of_int n * of_int q + of_int r"
    by (metis of_int_add of_int_mult)
  then have xq: "x = of_int q + rr / rn"
    using rn by (simp add: x_def rn_def rr_def divide_simps mult.commute)
  have x1: "1 \<le> x" using rn by (simp add: x_def rn_def [symmetric] divide_simps)
  have x128: "x < 128" using rn by (simp add: x_def rn_def [symmetric] divide_simps)
  have "x < 2 ^ 7" using x128 by simp
  then have e: "ilog2 x \<le> 51" using ilog2_less [OF x1, of 7] by simp
  have rx: "round_half_even x =
      (if 2 * r < n then q else if n < 2 * r then q + 1 else if even q then q else q + 1)"
    using round_half_even_quot [of n 100] assms
    by (simp add: x_def q_def r_def Let_def)
  have err: "\<bar>fl53 x - x\<bar> \<le> 1 / 2 ^ 47" by (rule fl53_error [OF x1 x128])
  consider "r = 0" | "2 * r = n" | "0 < r" "2 * r < n" | "n < 2 * r"
    using r by linarith
  then have "round_half_even (fl53 x) = round_half_even x"
  proof cases
    case 1
    then have "2 * x = of_int (2 * q)" using xq by (simp add: rr_def)
    then have "fl53 x = x" by (rule fl53_exact [OF x1 e])
    then show ?thesis by simp
  next
    case 2
    then have "(of_int n :: rat) = of_int (2 * r)" by simp
    then have "rn = 2 * rr" by (simp add: rn_def rr_def)
    then have "2 * x = of_int (2 * q + 1)" using xq rn by (simp add: divide_simps)
    then have "fl53 x = x" by (rule fl53_exact [OF x1 e])
    then show ?thesis by simp
  next
    case 3
    have "1 \<le> r" using 3 by linarith
    then have "(of_int 1 :: rat) \<le> of_int r" by (simp only: of_int_le_iff)
    then have a: "1 \<le> rr" by (simp add: rr_def)
    have "2 * r + 1 \<le> n" using 3 by linarith
    then have "(of_int (2 * r + 1) :: rat) \<le> of_int n" by (simp only: of_int_le_iff)
    then have b: "2 * rr + 1 \<le> rn" by (simp add: rr_def rn_def)
    have t1: "1 / 120 \<le> rr / rn" using rn a by (simp add: divide_simps)
    have t2: "rr / rn \<le> 1 / 2 - 1 / 120" using rn a b by (simp add: divide_simps)
    have "round_half_even (fl53 x) = q"
      by (rule round_half_even_stable(1) [OF xq err t1 t2])
    then show ?thesis using 3 by (simp add: rx)
  next
    case 4
    have "n + 1 \<le> 2 * r" using 4 by linarith
    then have "(of_int (n + 1) :: rat) \<le> of_int (2 * r)" by (simp only: of_int_le_iff)
    then have b: "rn + 1 \<le> 2 * rr" by (simp add: rr_def rn_def)
    have "r + 1 \<le> n" using r by linarith
    then have "(of_int (r + 1) :: rat) \<le> of_int n" by (simp only: of_int_le_iff)
    then have c: "rr + 1 \<le> rn" by (simp add: rr_def rn_def)
    have t1: "1 / 2 + 1 / 120 \<le> rr / rn" using rn b by (simp add: divide_simps)
    have t2: "rr / rn \<le> 1 - 1 / 120" using rn c by (simp add: divide_simps)
    have "round_half_even (fl53 x) = q + 1"
      by (rule round_half_even_stable(2) [OF xq err t1 t2])
    then show ?thesis using 4 by (simp add: rx)
  qed
  then show ?thesis by (simp add: x_def)
qed

lemma delay_cs_eq_spec:
  assumes "1 \<le> fps" and "fps \<le> 60"
  shows "delay_cs fps = Inr (spec_delay fps)"
  using assms
  by (simp add: delay_cs_def py_float_small float_div_def spec_delay_def
      round_fl53_quotient)

lemma spec_delay_quot:
  assumes "0 < fps"
  shows "spec_delay fps =
           max 1 (let q = 100 div fps; r = 100 mod fps
                  in if 2 * r < fps then q else if fps < 2 * r then q + 1
                     else if even q then q else q + 1)"
  using round_half_even_quot [OF assms, of 100] by (simp add: spec_delay_def)

lemma round_half_even_ge_floor: "\<lfloor>y\<rfloor> \<le> round_half_even y"
  by (simp add: round_half_even_def Let_def)

lemma pow2_pos: "0 < pow2 k"
  by (simp add: pow2_def)

lemma pow2_mono_52:
  assumes "0 \<le> e"
  shows "pow2 (e - 52) \<le> pow2 e"
proof (cases "52 \<le> e")
  case True
  then have "(2::rat) ^ nat (e - 52) \<le> 2 ^ nat e"
    by (intro power_increasing) simp_all
  then show ?thesis using True assms by (simp add: pow2_def)
next
  case False
  have "(1::rat) \<le> 2 ^ nat (52 - e)" by simp
  then have "1 / 2 ^ nat (52 - e) \<le> (1::rat)" by (simp add: divide_simps)
  moreover have "(1::rat) \<le> 2 ^ nat e" by simp
  ultimately have "1 / 2 ^ nat (52 - e) \<le> (2::rat) ^ nat e" by (rule order_trans)
  then show ?thesis using False assms by (simp add: pow2_def)
qed

lemma fl53_pos:
  assumes "1 \<le> x"
  shows "0 < fl53 x"
proof -
  define u where "u = pow2 (ilog2 x - 52)"
  have b: "0 \<le> ilog2 x" "pow2 (ilog2 x) \<le> x"
    using ilog2_bounds [OF assms] by simp_all
  have upos: "0 < u" by (simp add: u_def pow2_pos)
  have "u \<le> x" using pow2_mono_52 [OF b(1)] b(2) by (simp add: u_def)
  then have "1 \<le> x / u" using upos by (simp add: divide_simps)
  then have "1 \<le> \<lfloor>x / u\<rfloor>" by linarith
  then have "1 \<le> round_half_even (x / u)"
    using round_half_even_ge_floor [of "x / u"] by linarith
  then have "(0::rat) < of_int (round_half_even (x / u))" by simp
  then have "0 < of_int (round_half_even (x / u)) * u" using upos by simp
  moreover have "fl53 x = of_int (round_half_even (x / u)) * u"
    using assms by (simp add: fl53_def Let_def u_def)
  ultimately show ?thesis by simp
qed

lemma delay_cs_ge_1: "delay_cs fps = Inr d \<Longrightarrow> 1 \<le> d"
  by (auto simp: delay_cs_def split: sum.splits)

lemma delay_cs_positive_fps:
  assumes "0 < fps"
  shows "delay_cs fps = Inl OverflowError \<or> (\<exists>d. delay_cs fps = Inr d \<and> 1 \<le> d)"
proof -
  have "(1::rat) \<le> of_int fps" using assms by simp
  then have "fl53 (of_int fps) \<noteq> 0" using fl53_pos [of "of_int fps"] by simp
  then show ?thesis
    by (simp add: delay_cs_def py_float_def float_div_def Let_def)
qed

text \<open>
  Claim C1. For every \<open>fps\<close> from 1 to 60 the delay that the executor computes in double
  arithmetic is \<open>max(1, round(100 / fps))\<close> of the exact quotient, where \<open>round\<close> is the
  rounding of the source language (a tie goes to the even integer, so \<open>fps = 8\<close> gives 12);
  \<open>fps = 15\<close> gives 7, \<open>fps = 60\<close> gives 2 and \<open>fps = 1\<close> gives 100. A delay that
  is computed is at least 1, and for a positive \<open>fps\<close> it is computed unless \<open>fps\<close> is
  too large for a double.
\<close>

theorem delay_cs_formula:
  "(1 \<le> fps \<and> fps \<le> 60 \<longrightarrow> delay_cs fps = Inr (spec_delay fps)) \<and>
   delay_cs 15 = Inr 7 \<and> delay_cs 60 = Inr 2 \<and> delay_cs 1 = Inr 100 \<and>
   (\<forall>d. delay_cs fps = Inr d \<longrightarrow> 1 \<le> d) \<and>
   (0 < fps \<longrightarrow>
      delay_cs fps = Inl OverflowError \<or> (\<exists>d. delay_cs fps = Inr d \<and> 1 \<le> d))"
proof -
  have "delay_cs 15 = Inr 7" "delay_cs 60 = Inr 2" "delay_cs 1 = Inr 100"
    by (simp_all add: delay_cs_eq_spec spec_delay_quot)
  then show ?thesis
    using delay_cs_eq_spec [of fps] delay_cs_ge_1 [of fps] delay_cs_positive_fps [of fps]
    by blast
qed

theorem delay_cs_formula_witness:
  "(1::int) \<le> 8 \<and> (8::int) \<le> 60 \<and> (0::int) < 8 \<and> delay_cs 8 = Inr (spec_delay 8) \<and>
   spec_delay 8 = 12 \<and> (1::int) \<le> 12"
  using delay_cs_formula [of 8] by (simp add: spec_delay_quot)

section \<open>Properties of the pipeline executor\<close>

lemma check_outcome_ok: "check_outcome c out = Inr u \<Longrightarrow> exited_ok out"
  by (cases out) (auto simp: check_outcome_def split: if_splits)

lemma subprocess_run_eq:
  "subprocess_run env c w =
     (check_outcome c (fst (run_process env c (files w))),
      w\<lparr>files := snd (run_process env c (files w)),
        started := started w @ [(c, fst (run_process env c (files w)))]\<rparr>)"
  by (simp add: subprocess_run_def split: prod.splits)

lemma pipeline_trace:
  "\<exists>L. started (snd (pipeline env ffmpeg im in_path out_path v delay dither td w)) =
          started w @ L \<and>
        L \<noteq> [] \<and>
        map fst L =
          take (length L)
            [extract_cmd ffmpeg in_path v (path_join td ''f_%06d.png''),
             palette_cmd ffmpeg in_path v (path_join td ''palette.png''),
             assemble_cmd im delay (path_join td ''f_*.png'') (path_join td ''palette.png'')
               dither out_path] \<and>
        (\<forall>k. Suc k < length L \<longrightarrow> exited_ok (snd (L ! k))) \<and>
        fst (pipeline env ffmpeg im in_path out_path v delay dither td w) =
          check_outcome (fst (last L)) (snd (last L)) \<and>
        (length L < 3 \<longrightarrow>
           (\<exists>e. fst (pipeline env ffmpeg im in_path out_path v delay dither td w) = Inl e)) \<and>
        tempdirs (snd (pipeline env ffmpeg im in_path out_path v delay dither td w)) =
          tempdirs w \<and>
        dialogs (snd (pipeline env ffmpeg im in_path out_path v delay dither td w)) =
          dialogs w"
proof -
  let ?c1 = "extract_cmd ffmpeg in_path v (path_join td ''f_%06d.png'')"
  let ?c2 = "palette_cmd ffmpeg in_path v (path_join td ''palette.png'')"
  let ?c3 = "assemble_cmd im delay (path_join td ''f_*.png'') (path_join td ''palette.png'')
               dither out_path"
  define o1 where "o1 = fst (run_process env ?c1 (files w))"
  define w1 where "w1 = snd (subprocess_run env ?c1 w)"
  define o2 where "o2 = fst (run_process env ?c2 (files w1))"
  define w2 where "w2 = snd (subprocess_run env ?c2 w1)"
  define o3 where "o3 = fst (run_process env ?c3 (files w2))"
  define w3 where "w3 = snd (subprocess_run env ?c3 w2)"
  let ?P = "pipeline env ffmpeg im in_path out_path v delay dither td w"
  have s1: "subprocess_run env ?c1 w = (check_outcome ?c1 o1, w1)"
    by (simp add: subprocess_run_eq o1_def w1_def)
  have s2: "subprocess_run env ?c2 w1 = (check_outcome ?c2 o2, w2)"
    by (simp add: subprocess_run_eq o2_def w2_def)
  have s3: "subprocess_run env ?c3 w2 = (check_outcome ?c3 o3, w3)"
    by (simp add: subprocess_run_eq o3_def w3_def)
  have l1: "started w1 = started w @ [(?c1, o1)]"
    by (simp add: subprocess_run_eq o1_def w1_def)
  have l2: "started w2 = started w1 @ [(?c2, o2)]"
    by (simp add: subprocess_run_eq o2_def w2_def)
  have l3: "started w3 = started w2 @ [(?c3, o3)]"
    by (simp add: subprocess_run_eq o3_def w3_def)
  have t1: "tempdirs w1 = tempdirs w" "dialogs w1 = dialogs w"
    by (simp_all add: subprocess_run_eq w1_def)
  have t2: "tempdirs w2 = tempdirs w1" "dialogs w2 = dialogs w1"
    by (simp_all add: subprocess_run_eq w2_def)
  have t3: "tempdirs w3 = tempdirs w2" "dialogs w3 = dialogs w2"
    by (simp_all add: subprocess_run_eq w3_def)
  show ?thesis
  proof (cases "check_outcome ?c1 o1")
    case (Inl e)
    then have p: "?P = (check_outcome ?c1 o1, w1)"
      by (simp add: pipeline_def Let_def s1)
    show ?thesis
      by (rule exI [of _ "[(?c1, o1)]"]) (simp add: p l1 t1 Inl)
  next
    case r1: (Inr u1)
    have ok1: "exited_ok o1" using check_outcome_ok [OF r1] .
    show ?thesis
    proof (cases "check_outcome ?c2 o2")
      case (Inl e)
      then have p: "?P = (check_outcome ?c2 o2, w2)"
        by (simp add: pipeline_def Let_def s1 r1 s2)
      show ?thesis
        by (rule exI [of _ "[(?c1, o1), (?c2, o2)]"]) (simp add: p l1 l2 ok1 t1 t2 Inl)
    next
      case r2: (Inr u2)
      have ok2: "exited_ok o2" using check_outcome_ok [OF r2] .
      have p: "?P = (check_outcome ?c3 o3, w3)"
        by (simp add: pipeline_def Let_def s1 r1 s2 r2 s3)
      have oks: "\<forall>k. Suc k < 3 \<longrightarrow>
          exited_ok (snd ([(?c1, o1), (?c2, o2), (?c3, o3)] ! k))"
      proof (intro allI impI)
        fix k :: nat
        assume "Suc k < 3"
        then have "k = 0 \<or> k = 1" by arith
        then show "exited_ok (snd ([(?c1, o1), (?c2, o2), (?c3, o3)] ! k))"
          using ok1 ok2 by auto
      qed
      show ?thesis
        by (rule exI [of _ "[(?c1, o1), (?c2, o2), (?c3, o3)]"])
          (use oks in \<open>simp add: p l1 l2 l3 t1 t2 t3\<close>)
    qed
  qed
qed

lemma cleanup_removes_tree: "in_tree td p \<Longrightarrow> p \<notin> files (cleanup td w)"
  by (simp add: cleanup_def)

lemma cleanup_other_logs:
  "started (cleanup td w) = started w"
  "tempdirs (cleanup td w) = tempdirs w"
  "dialogs (cleanup td w) = dialogs w"
  by (simp_all add: cleanup_def)

lemma find_imagemagick_truthy:
  "truthy_str (find_imagemagick env) \<Longrightarrow> \<exists>im. find_imagemagick env = Some im \<and> im \<noteq> []"
  by (cases "find_imagemagick env") (simp_all add: truthy_str_def)

text \<open>
  What one call of the executor adds to the world: the invocations \<open>L\<close> and the temporary
  directories \<open>T\<close>.
\<close>

lemma make_gif_im_trace:
  "\<exists>L T.
     started (snd (make_gif_im env in_path out_path fps max_w dither w)) = started w @ L \<and>
     tempdirs (snd (make_gif_im env in_path out_path fps max_w dither w)) = tempdirs w @ T \<and>
     dialogs (snd (make_gif_im env in_path out_path fps max_w dither w)) = dialogs w \<and>
     length L \<le> 3 \<and>
     (\<forall>k. Suc k < length L \<longrightarrow> exited_ok (snd (L ! k))) \<and>
     (L \<noteq> [] \<longrightarrow>
        fst (make_gif_im env in_path out_path fps max_w dither w) =
          check_outcome (fst (last L)) (snd (last L))) \<and>
     (\<forall>ffmpeg delay td.
        get_ffmpeg_exe env = Inr ffmpeg \<and> delay_cs fps = Inr delay \<and>
        mkdtemp env (files w) = Inr td \<longrightarrow>
        map fst L =
          take (length L)
            [extract_cmd ffmpeg in_path (vf fps max_w) (path_join td ''f_%06d.png''),
             palette_cmd ffmpeg in_path (vf fps max_w) (path_join td ''palette.png''),
             assemble_cmd (the (find_imagemagick env)) delay (path_join td ''f_*.png'')
               (path_join td ''palette.png'') (dither_arg dither) out_path]) \<and>
     (L \<noteq> [] \<longrightarrow> T \<noteq> []) \<and>
     (L \<noteq> [] \<and> length L < 3 \<longrightarrow>
        (\<exists>e. fst (make_gif_im env in_path out_path fps max_w dither w) = Inl e)) \<and>
     (\<forall>ffmpeg delay td.
        get_ffmpeg_exe env = Inr ffmpeg \<and> truthy_str (find_imagemagick env) \<and>
        delay_cs fps = Inr delay \<and> mkdtemp env (files w) = Inr td \<longrightarrow> L \<noteq> []) \<and>
     (L \<noteq> [] \<longrightarrow>
        (\<exists>ffmpeg delay td.
           get_ffmpeg_exe env = Inr ffmpeg \<and> delay_cs fps = Inr delay \<and>
           mkdtemp env (files w) = Inr td)) \<and>
     (\<forall>td \<in> set T. \<forall>p. in_tree td p \<longrightarrow>
        p \<notin> files (snd (make_gif_im env in_path out_path fps max_w dither w)))"
proof -
  let ?M = "make_gif_im env in_path out_path fps max_w dither w"
  have trivial: ?thesis
    if "?M = (r, w)"
      "\<forall>ffmpeg delay td.
         get_ffmpeg_exe env = Inr ffmpeg \<and> truthy_str (find_imagemagick env) \<and>
         delay_cs fps = Inr delay \<and> mkdtemp env (files w) = Inr td \<longrightarrow> False" for r
    by (rule exI [of _ "[]"], rule exI [of _ "[]"]) (use that in simp)
  show ?thesis
  proof (cases "get_ffmpeg_exe env")
    case (Inl e)
    then have "?M = (Inl e, w)" by (simp add: make_gif_im_def)
    then show ?thesis by (rule trivial) (simp add: Inl)
  next
    case ff: (Inr ffmpeg)
    show ?thesis
    proof (cases "truthy_str (find_imagemagick env)")
      case False
      then have "?M = (Inl (RuntimeError im_not_found), w)"
        by (simp add: make_gif_im_def ff Let_def)
      then show ?thesis by (rule trivial) (simp add: False)
    next
      case im: True
      show ?thesis
      proof (cases "delay_cs fps")
        case (Inl e)
        then have "?M = (Inl e, w)" by (simp add: make_gif_im_def ff im Let_def)
        then show ?thesis by (rule trivial) (simp add: Inl)
      next
        case dl: (Inr delay)
        show ?thesis
        proof (cases "mkdtemp env (files w)")
          case (Inl e)
          then have "?M = (Inl e, w)"
            by (simp add: make_gif_im_def ff im dl Let_def with_temporary_directory_def)
          then show ?thesis by (rule trivial) (simp add: Inl)
        next
          case td: (Inr td)
          define w0 where "w0 = w\<lparr>files := insert td (files w), tempdirs := tempdirs w @ [td]\<rparr>"
          define P where "P = pipeline env ffmpeg (the (find_imagemagick env)) in_path out_path
            (vf fps max_w) delay (dither_arg dither) td w0"
          have M: "?M = (fst P, cleanup td (snd P))"
            by (simp add: make_gif_im_def ff im dl td Let_def with_temporary_directory_def
                P_def w0_def split: prod.splits)
          have "\<exists>L. (started (snd P) = started w0 @ L) \<and>
            (L \<noteq> []) \<and>
            (map fst L =
              take (length L)
                [extract_cmd ffmpeg in_path (vf fps max_w) (path_join td ''f_%06d.png''),
                 palette_cmd ffmpeg in_path (vf fps max_w) (path_join td ''palette.png''),
                 assemble_cmd (the (find_imagemagick env)) delay (path_join td ''f_*.png'')
                   (path_join td ''palette.png'') (dither_arg dither) out_path]) \<and>
            (\<forall>k. Suc k < length L \<longrightarrow> exited_ok (snd (L ! k))) \<and>
            (fst P = check_outcome (fst (last L)) (snd (last L))) \<and>
            (length L < 3 \<longrightarrow> (\<exists>e. fst P = Inl e)) \<and>
            (tempdirs (snd P) = tempdirs w0) \<and>
            (dialogs (snd P) = dialogs w0)"
            unfolding P_def by (rule pipeline_trace)
          then obtain L where LL:
            "(started (snd P) = started w0 @ L) \<and>
            (L \<noteq> []) \<and>
            (map fst L =
              take (length L)
                [extract_cmd ffmpeg in_path (vf fps max_w) (path_join td ''f_%06d.png''),
                 palette_cmd ffmpeg in_path (vf fps max_w) (path_join td ''palette.png''),
                 assemble_cmd (the (find_imagemagick env)) delay (path_join td ''f_*.png'')
                   (path_join td ''palette.png'') (dither_arg dither) out_path]) \<and>
            (\<forall>k. Suc k < length L \<longrightarrow> exited_ok (snd (L ! k))) \<and>
            (fst P = check_outcome (fst (last L)) (snd (last L))) \<and>
            (length L < 3 \<longrightarrow> (\<exists>e. fst P = Inl e)) \<and>
            (tempdirs (snd P) = tempdirs w0) \<and>
            (dialogs (snd P) = dialogs w0)" ..
          note L = LL [THEN conjunct1]
            LL [THEN conjunct2, THEN conjunct1]
            LL [THEN conjunct2, THEN conjunct2, THEN conjunct1]
            LL [THEN conjunct2, THEN conjunct2, THEN conjunct2, THEN conjunct1]
            LL [THEN conjunct2, THEN conjunct2, THEN conjunct2, THEN conjunct2, THEN conjunct1]
            LL [THEN conjunct2, THEN conjunct2, THEN conjunct2, THEN conjunct2, THEN conjunct2, THEN conjunct1]
            LL [THEN conjunct2, THEN conjunct2, THEN conjunct2, THEN conjunct2, THEN conjunct2, THEN conjunct2, THEN conjunct1]
            LL [THEN conjunct2, THEN conjunct2, THEN conjunct2, THEN conjunct2, THEN conjunct2, THEN conjunct2, THEN conjunct2]
          have len: "length L \<le> 3"
          proof -
            have "length (map fst L) \<le> 3" unfolding L(3) by simp
            then show ?thesis by simp
          qed
          have c1: "started (snd ?M) = started w @ L"
            by (simp add: M cleanup_other_logs L(1) w0_def)
          have c2: "tempdirs (snd ?M) = tempdirs w @ [td]"
            by (simp add: M cleanup_other_logs L(7) w0_def)
          have c3: "dialogs (snd ?M) = dialogs w"
            by (simp add: M cleanup_other_logs L(8) w0_def)
          have c6: "L \<noteq> [] \<longrightarrow> fst ?M = check_outcome (fst (last L)) (snd (last L))"
            by (simp add: M L(5))
          have c7: "\<forall>ffmpeg delay td.
              get_ffmpeg_exe env = Inr ffmpeg \<and> delay_cs fps = Inr delay \<and>
              mkdtemp env (files w) = Inr td \<longrightarrow>
              map fst L =
                take (length L)
                  [extract_cmd ffmpeg in_path (vf fps max_w) (path_join td ''f_%06d.png''),
                   palette_cmd ffmpeg in_path (vf fps max_w) (path_join td ''palette.png''),
                   assemble_cmd (the (find_imagemagick env)) delay (path_join td ''f_*.png'')
                     (path_join td ''palette.png'') (dither_arg dither) out_path]"
            using L(3) by (simp add: ff dl td)
          have c8: "L \<noteq> [] \<longrightarrow> [td] \<noteq> []" by simp
          have c9: "L \<noteq> [] \<and> length L < 3 \<longrightarrow> (\<exists>e. fst ?M = Inl e)"
            using L(6) by (simp add: M)
          have c10: "\<forall>ffmpeg delay td.
              get_ffmpeg_exe env = Inr ffmpeg \<and> truthy_str (find_imagemagick env) \<and>
              delay_cs fps = Inr delay \<and> mkdtemp env (files w) = Inr td \<longrightarrow> L \<noteq> []"
            using L(2) by simp
          have c11: "L \<noteq> [] \<longrightarrow>
              (\<exists>ffmpeg delay td.
                 get_ffmpeg_exe env = Inr ffmpeg \<and> delay_cs fps = Inr delay \<and>
                 mkdtemp env (files w) = Inr td)"
            using ff dl td by blast
          have c12: "\<forall>td \<in> set [td]. \<forall>p. in_tree td p \<longrightarrow> p \<notin> files (snd ?M)"
            by (simp add: M cleanup_removes_tree)
          note all = conjI [OF c1 conjI [OF c2 conjI [OF c3 conjI [OF len conjI [OF L(4) conjI [OF c6 conjI [OF c7 conjI [OF c8 conjI [OF c9 conjI [OF c10 conjI [OF c11 c12]]]]]]]]]]]
          show ?thesis
            by (rule exI [of _ L], rule exI [of _ "[td]"]) (rule all)
        qed
      qed
    qed
  qed
qed



lemma new_logs_append:
  "started w' = started w @ L \<Longrightarrow> new_started w w' = L"
  "tempdirs w' = tempdirs w @ T \<Longrightarrow> new_tempdirs w w' = T"
  "dialogs w' = dialogs w @ D \<Longrightarrow> new_dialogs w w' = D"
  by (simp_all add: new_started_def new_tempdirs_def new_dialogs_def)

text \<open>The same facts, about the invocations and the directories that the call added.\<close>

lemma executor_trace:
  shows "started (snd (make_gif_im env in_path out_path fps max_w dither w)) = started w @ new_started w (snd (make_gif_im env in_path out_path fps max_w dither w))"
    and "tempdirs (snd (make_gif_im env in_path out_path fps max_w dither w)) = tempdirs w @ new_tempdirs w (snd (make_gif_im env in_path out_path fps max_w dither w))"
    and "dialogs (snd (make_gif_im env in_path out_path fps max_w dither w)) = dialogs w"
    and "length (new_started w (snd (make_gif_im env in_path out_path fps max_w dither w))) \<le> 3"
    and "\<forall>k. Suc k < length (new_started w (snd (make_gif_im env in_path out_path fps max_w dither w))) \<longrightarrow> exited_ok (snd (new_started w (snd (make_gif_im env in_path out_path fps max_w dither w)) ! k))"
    and "new_started w (snd (make_gif_im env in_path out_path fps max_w dither w)) \<noteq> [] \<longrightarrow>
     fst (make_gif_im env in_path out_path fps max_w dither w) = check_outcome (fst (last (new_started w (snd (make_gif_im env in_path out_path fps max_w dither w))))) (snd (last (new_started w (snd (make_gif_im env in_path out_path fps max_w dither w)))))"
    and "\<forall>ffmpeg delay td.
      get_ffmpeg_exe env = Inr ffmpeg \<and> delay_cs fps = Inr delay \<and>
      mkdtemp env (files w) = Inr td \<longrightarrow>
      map fst (new_started w (snd (make_gif_im env in_path out_path fps max_w dither w))) =
        take (length (new_started w (snd (make_gif_im env in_path out_path fps max_w dither w))))
          [extract_cmd ffmpeg in_path (vf fps max_w) (path_join td ''f_%06d.png''),
           palette_cmd ffmpeg in_path (vf fps max_w) (path_join td ''palette.png''),
           assemble_cmd (the (find_imagemagick env)) delay (path_join td ''f_*.png'')
             (path_join td ''palette.png'') (dither_arg dither) out_path]"
    and "new_started w (snd (make_gif_im env in_path out_path fps max_w dither w)) \<noteq> [] \<longrightarrow> new_tempdirs w (snd (make_gif_im env in_path out_path fps max_w dither w)) \<noteq> []"
    and "new_started w (snd (make_gif_im env in_path out_path fps max_w dither w)) \<noteq> [] \<and> length (new_started w (snd (make_gif_im env in_path out_path fps max_w dither w))) < 3 \<longrightarrow> (\<exists>e. fst (make_gif_im env in_path out_path fps max_w dither w) = Inl e)"
    and "\<forall>ffmpeg delay td.
      get_ffmpeg_exe env = Inr ffmpeg \<and> truthy_str (find_imagemagick env) \<and>
      delay_cs fps = Inr delay \<and> mkdtemp env (files w) = Inr td \<longrightarrow> new_started w (snd (make_gif_im env in_path out_path fps max_w dither w)) \<noteq> []"
    and "new_started w (snd (make_gif_im env in_path out_path fps max_w dither w)) \<noteq> [] \<longrightarrow>
      (\<exists>ffmpeg delay td.
         get_ffmpeg_exe env = Inr ffmpeg \<and> delay_cs fps = Inr delay \<and>
         mkdtemp env (files w) = Inr td)"
    and "\<forall>td \<in> set (new_tempdirs w (snd (make_gif_im env in_path out_path fps max_w dither w))). \<forall>p. in_tree td p \<longrightarrow> p \<notin> files (snd (make_gif_im env in_path out_path fps max_w dither w))"
proof -
  have "\<exists>L T.
     (started (snd (make_gif_im env in_path out_path fps max_w dither w)) = started w @ L) \<and>
     (tempdirs (snd (make_gif_im env in_path out_path fps max_w dither w)) = tempdirs w @ T) \<and>
     (dialogs (snd (make_gif_im env in_path out_path fps max_w dither w)) = dialogs w) \<and>
     (length (L) \<le> 3) \<and>
     (\<forall>k. Suc k < length (L) \<longrightarrow> exited_ok (snd (L ! k))) \<and>
     (L \<noteq> [] \<longrightarrow>
     fst (make_gif_im env in_path out_path fps max_w dither w) = check_outcome (fst (last (L))) (snd (last (L)))) \<and>
     (\<forall>ffmpeg delay td.
      get_ffmpeg_exe env = Inr ffmpeg \<and> delay_cs fps = Inr delay \<and>
      mkdtemp env (files w) = Inr td \<longrightarrow>
      map fst (L) =
        take (length (L))
          [extract_cmd ffmpeg in_path (vf fps max_w) (path_join td ''f_%06d.png''),
           palette_cmd ffmpeg in_path (vf fps max_w) (path_join td ''palette.png''),
           assemble_cmd (the (find_imagemagick env)) delay (path_join td ''f_*.png'')
             (path_join td ''palette.png'') (dither_arg dither) out_path]) \<and>
     (L \<noteq> [] \<longrightarrow> T \<noteq> []) \<and>
     (L \<noteq> [] \<and> length (L) < 3 \<longrightarrow> (\<exists>e. fst (make_gif_im env in_path out_path fps max_w dither w) = Inl e)) \<and>
     (\<forall>ffmpeg delay td.
      get_ffmpeg_exe env = Inr ffmpeg \<and> truthy_str (find_imagemagick env) \<and>
      delay_cs fps = Inr delay \<and> mkdtemp env (files w) = Inr td \<longrightarrow> L \<noteq> []) \<and>
     (L \<noteq> [] \<longrightarrow>
      (\<exists>ffmpeg delay td.
         get_ffmpeg_exe env = Inr ffmpeg \<and> delay_cs fps = Inr delay \<and>
         mkdtemp env (files w) = Inr td)) \<and>
     (\<forall>td \<in> set (T). \<forall>p. in_tree td p \<longrightarrow> p \<notin> files (snd (make_gif_im env in_path out_path fps max_w dither w)))"
    by (rule make_gif_im_trace)
  then obtain L where "\<exists>T.
     (started (snd (make_gif_im env in_path out_path fps max_w dither w)) = started w @ L) \<and>
     (tempdirs (snd (make_gif_im env in_path out_path fps max_w dither w)) = tempdirs w @ T) \<and>
     (dialogs (snd (make_gif_im env in_path out_path fps max_w dither w)) = dialogs w) \<and>
     (length (L) \<le> 3) \<and>
     (\<forall>k. Suc k < length (L) \<longrightarrow> exited_ok (snd (L ! k))) \<and>
     (L \<noteq> [] \<longrightarrow>
     fst (make_gif_im env in_path out_path fps max_w dither w) = check_outcome (fst (last (L))) (snd (last (L)))) \<and>
     (\<forall>ffmpeg delay td.
      get_ffmpeg_exe env = Inr ffmpeg \<and> delay_cs fps = Inr delay \<and>
      mkdtemp env (files w) = Inr td \<longrightarrow>
      map fst (L) =
        take (length (L))
          [extract_cmd ffmpeg in_path (vf fps max_w) (path_join td ''f_%06d.png''),
           palette_cmd ffmpeg in_path (vf fps max_w) (path_join td ''palette.png''),
           assemble_cmd (the (find_imagemagick env)) delay (path_join td ''f_*.png'')
             (path_join td ''palette.png'') (dither_arg dither) out_path]) \<and>
     (L \<noteq> [] \<longrightarrow> T \<noteq> []) \<and>
     (L \<noteq> [] \<and> length (L) < 3 \<longrightarrow> (\<exists>e. fst (make_gif_im env in_path out_path fps max_w dither w) = Inl e)) \<and>
     (\<forall>ffmpeg delay td.
      get_ffmpeg_exe env = Inr ffmpeg \<and> truthy_str (find_imagemagick env) \<and>
      delay_cs fps = Inr delay \<and> mkdtemp env (files w) = Inr td \<longrightarrow> L \<noteq> []) \<and>
     (L \<noteq> [] \<longrightarrow>
      (\<exists>ffmpeg delay td.
         get_ffmpeg_exe env = Inr ffmpeg \<and> delay_cs fps = Inr delay \<and>
         mkdtemp env (files w) = Inr td)) \<and>
     (\<forall>td \<in> set (T). \<forall>p. in_tree td p \<longrightarrow> p \<notin> files (snd (make_gif_im env in_path out_path fps max_w dither w)))" ..
  then obtain T where LL:
    "(started (snd (make_gif_im env in_path out_path fps max_w dither w)) = started w @ L) \<and>
     (tempdirs (snd (make_gif_im env in_path out_path fps max_w dither w)) = tempdirs w @ T) \<and>
     (dialogs (snd (make_gif_im env in_path out_path fps max_w dither w)) = dialogs w) \<and>
     (length (L) \<le> 3) \<and>
     (\<forall>k. Suc k < length (L) \<longrightarrow> exited_ok (snd (L ! k))) \<and>
     (L \<noteq> [] \<longrightarrow>
     fst (make_gif_im env in_path out_path fps max_w dither w) = check_outcome (fst (last (L))) (snd (last (L)))) \<and>
     (\<forall>ffmpeg delay td.
      get_ffmpeg_exe env = Inr ffmpeg \<and> delay_cs fps = Inr delay \<and>
      mkdtemp env (files w) = Inr td \<longrightarrow>
      map fst (L) =
        take (length (L))
          [extract_cmd ffmpeg in_path (vf fps max_w) (path_join td ''f_%06d.png''),
           palette_cmd ffmpeg in_path (vf fps max_w) (path_join td ''palette.png''),
           assemble_cmd (the (find_imagemagick env)) delay (path_join td ''f_*.png'')
             (path_join td ''palette.png'') (dither_arg dither) out_path]) \<and>
     (L \<noteq> [] \<longrightarrow> T \<noteq> []) \<and>
     (L \<noteq> [] \<and> length (L) < 3 \<longrightarrow> (\<exists>e. fst (make_gif_im env in_path out_path fps max_w dither w) = Inl e)) \<and>
     (\<forall>ffmpeg delay td.
      get_ffmpeg_exe env = Inr ffmpeg \<and> truthy_str (find_imagemagick env) \<and>
      delay_cs fps = Inr delay \<and> mkdtemp env (files w) = Inr td \<longrightarrow> L \<noteq> []) \<and>
     (L \<noteq> [] \<longrightarrow>
      (\<exists>ffmpeg delay td.
         get_ffmpeg_exe env = Inr ffmpeg \<and> delay_cs fps = Inr delay \<and>
         mkdtemp env (files w) = Inr td)) \<and>
     (\<forall>td \<in> set (T). \<forall>p. in_tree td p \<longrightarrow> p \<notin> files (snd (make_gif_im env in_path out_path fps max_w dither w)))" ..
  have nl: "new_started w (snd (make_gif_im env in_path out_path fps max_w dither w)) = L"
    using LL [THEN conjunct1] by (rule new_logs_append(1))
  have nt: "new_tempdirs w (snd (make_gif_im env in_path out_path fps max_w dither w)) = T"
    using LL [THEN conjunct2, THEN conjunct1] by (rule new_logs_append(2))
  show "started (snd (make_gif_im env in_path out_path fps max_w dither w)) = started w @ new_started w (snd (make_gif_im env in_path out_path fps max_w dither w))"
    unfolding nl nt by (rule LL [THEN conjunct1])
  show "tempdirs (snd (make_gif_im env in_path out_path fps max_w dither w)) = tempdirs w @ new_tempdirs w (snd (make_gif_im env in_path out_path fps max_w dither w))"
    unfolding nl nt by (rule LL [THEN conjunct2, THEN conjunct1])
  show "dialogs (snd (make_gif_im env in_path out_path fps max_w dither w)) = dialogs w"
    unfolding nl nt by (rule LL [THEN conjunct2, THEN conjunct2, THEN conjunct1])
  show "length (new_started w (snd (make_gif_im env in_path out_path fps max_w dither w))) \<le> 3"
    unfolding nl nt by (rule LL [THEN conjunct2, THEN conjunct2, THEN conjunct2, THEN conjunct1])
  show "\<forall>k. Suc k < length (new_started w (snd (make_gif_im env in_path out_path fps max_w dither w))) \<longrightarrow> exited_ok (snd (new_started w (snd (make_gif_im env in_path out_path fps max_w dither w)) ! k))"
    unfolding nl nt by (rule LL [THEN conjunct2, THEN conjunct2, THEN conjunct2, THEN conjunct2, THEN conjunct1])
  show "new_started w (snd (make_gif_im env in_path out_path fps max_w dither w)) \<noteq> [] \<longrightarrow>
     fst (make_gif_im env in_path out_path fps max_w dither w) = check_outcome (fst (last (new_started w (snd (make_gif_im env in_path out_path fps max_w dither w))))) (snd (last (new_started w (snd (make_gif_im env in_path out_path fps max_w dither w)))))"
    unfolding nl nt by (rule LL [THEN conjunct2, THEN conjunct2, THEN conjunct2, THEN conjunct2, THEN conjunct2, THEN conjunct1])
  show "\<forall>ffmpeg delay td.
      get_ffmpeg_exe env = Inr ffmpeg \<and> delay_cs fps = Inr delay \<and>
      mkdtemp env (files w) = Inr td \<longrightarrow>
      map fst (new_started w (snd (make_gif_im env in_path out_path fps max_w dither w))) =
        take (length (new_started w (snd (make_gif_im env in_path out_path fps max_w dither w))))
          [extract_cmd ffmpeg in_path (vf fps max_w) (path_join td ''f_%06d.png''),
           palette_cmd ffmpeg in_path (vf fps max_w) (path_join td ''palette.png''),
           assemble_cmd (the (find_imagemagick env)) delay (path_join td ''f_*.png'')
             (path_join td ''palette.png'') (dither_arg dither) out_path]"
    unfolding nl nt by (rule LL [THEN conjunct2, THEN conjunct2, THEN conjunct2, THEN conjunct2, THEN conjunct2, THEN conjunct2, THEN conjunct1])
  show "new_started w (snd (make_gif_im env in_path out_path fps max_w dither w)) \<noteq> [] \<longrightarrow> new_tempdirs w (snd (make_gif_im env in_path out_path fps max_w dither w)) \<noteq> []"
    unfolding nl nt by (rule LL [THEN conjunct2, THEN conjunct2, THEN conjunct2, THEN conjunct2, THEN conjunct2, THEN conjunct2, THEN conjunct2, THEN conjunct1])
  show "new_started w (snd (make_gif_im env in_path out_path fps max_w dither w)) \<noteq> [] \<and> length (new_started w (snd (make_gif_im env in_path out_path fps max_w dither w))) < 3 \<longrightarrow> (\<exists>e. fst (make_gif_im env in_path out_path fps max_w dither w) = Inl e)"
    unfolding nl nt by (rule LL [THEN conjunct2, THEN conjunct2, THEN conjunct2, THEN conjunct2, THEN conjunct2, THEN conjunct2, THEN conjunct2, THEN conjunct2, THEN conjunct1])
  show "\<forall>ffmpeg delay td.
      get_ffmpeg_exe env = Inr ffmpeg \<and> truthy_str (find_imagemagick env) \<and>
      delay_cs fps = Inr delay \<and> mkdtemp env (files w) = Inr td \<longrightarrow> new_started w (snd (make_gif_im env in_path out_path fps max_w dither w)) \<noteq> []"
    unfolding nl nt by (rule LL [THEN conjunct2, THEN conjunct2, THEN conjunct2, THEN conjunct2, THEN conjunct2, THEN conjunct2, THEN conjunct2, THEN conjunct2, THEN conjunct2, THEN conjunct1])
  show "new_started w (snd (make_gif_im env in_path out_path fps max_w dither w)) \<noteq> [] \<longrightarrow>
      (\<exists>ffmpeg delay td.
         get_ffmpeg_exe env = Inr ffmpeg \<and> delay_cs fps = Inr delay \<and>
         mkdtemp env (files w) = Inr td)"
    unfolding nl nt by (rule LL [THEN conjunct2, THEN conjunct2, THEN conjunct2, THEN conjunct2, THEN conjunct2, THEN conjunct2, THEN conjunct2, THEN conjunct2, THEN conjunct2, THEN conjunct2, THEN conjunct1])
  show "\<forall>td \<in> set (new_tempdirs w (snd (make_gif_im env in_path out_path fps max_w dither w))). \<forall>p. in_tree td p \<longrightarrow> p \<notin> files (snd (make_gif_im env in_path out_path fps max_w dither w))"
    unfolding nl nt by (rule LL [THEN conjunct2, THEN conjunct2, THEN conjunct2, THEN conjunct2, THEN conjunct2, THEN conjunct2, THEN conjunct2, THEN conjunct2, THEN conjunct2, THEN conjunct2, THEN conjunct2])
qed

text \<open>
  Claim C4. The invocations that one call of the executor makes are at most three; every
  invocation that is followed by another one has exited with status 0, so after an extract
  or a palette invocation that fails no further stage is started; and the invocations are,
  in this order, the extract, the palette and the assemble command.
\<close>

theorem stages_strictly_sequential:
  "\<forall>L. L = new_started w (snd (make_gif_im env in_path out_path fps max_w dither w)) \<longrightarrow>
     length L \<le> 3 \<and>
     (\<forall>k. Suc k < length L \<longrightarrow> exited_ok (snd (L ! k))) \<and>
     (\<forall>ffmpeg delay td.
        get_ffmpeg_exe env = Inr ffmpeg \<and> delay_cs fps = Inr delay \<and>
        mkdtemp env (files w) = Inr td \<longrightarrow>
        map fst L =
          take (length L)
            [extract_cmd ffmpeg in_path (vf fps max_w) (path_join td ''f_%06d.png''),
             palette_cmd ffmpeg in_path (vf fps max_w) (path_join td ''palette.png''),
             assemble_cmd (the (find_imagemagick env)) delay (path_join td ''f_*.png'')
               (path_join td ''palette.png'') (dither_arg dither) out_path])"
proof (intro allI impI)
  fix L
  assume L: "L = new_started w (snd (make_gif_im env in_path out_path fps max_w dither w))"
  show "length L \<le> 3 \<and>
     (\<forall>k. Suc k < length L \<longrightarrow> exited_ok (snd (L ! k))) \<and>
     (\<forall>ffmpeg delay td.
        get_ffmpeg_exe env = Inr ffmpeg \<and> delay_cs fps = Inr delay \<and>
        mkdtemp env (files w) = Inr td \<longrightarrow>
        map fst L =
          take (length L)
            [extract_cmd ffmpeg in_path (vf fps max_w) (path_join td ''f_%06d.png''),
             palette_cmd ffmpeg in_path (vf fps max_w) (path_join td ''palette.png''),
             assemble_cmd (the (find_imagemagick env)) delay (path_join td ''f_*.png'')
               (path_join td ''palette.png'') (dither_arg dither) out_path])"
    unfolding L by (intro conjI executor_trace(4) executor_trace(5) executor_trace(7))
qed

lemma delay_cs_15: "delay_cs 15 = Inr 7"
  by (simp add: delay_cs_eq_spec spec_delay_quot)
lemma vf_15_None: "vf 15 None = ''fps=15,format=rgba''"
  by (simp add: vf_def filters_def truthy_int_def str_int_def str_nat.simps digit_char_def)
lemma find_only_magick:
  "find_imagemagick (sample_env only_magick run) = Some ''/usr/bin/magick''"
  by (simp add: sample_env_def find_imagemagick_def only_magick_def truthy_str_def)
lemma sample_env_fields:
  "get_ffmpeg_exe (sample_env wh run) = Inr ''/usr/bin/ffmpeg''"
  "mkdtemp (sample_env wh run) fs = Inr ''/tmp/tmpw''"
  "which (sample_env wh run) = wh"
  "run_process (sample_env wh run) = run"
  "exc_str (sample_env wh run) e = ''error''"
  "py_strip (sample_env wh run) = sample_strip"
  "py_int (sample_env wh run) = sample_int"
  "os_name (sample_env wh run) = ''posix''"
  "sys_platform (sample_env wh run) = ''linux''"
  by (simp_all add: sample_env_def)
lemma pipeline_extract_fails:
  "pipeline (sample_env wh extract_fails) ffmpeg im in_path out_path v delay dither td w =
   (Inl (CalledProcessError 1 (extract_cmd ffmpeg in_path v (path_join td ''f_%06d.png'')) []
           (''boom'' @ [newline])),
    w\<lparr>files := insert ''/tmp/tmpw/f_000001.png'' (files w),
      started :=
        started w @
        [(extract_cmd ffmpeg in_path v (path_join td ''f_%06d.png''),
          Exited 1 [] (''boom'' @ [newline]))]\<rparr>)"
  by (simp add: pipeline_def subprocess_run_eq sample_env_def extract_fails_def check_outcome_def Let_def)

lemma make_gif_im_extract_fails:
  "fst (make_gif_im (sample_env only_magick extract_fails) in_path out_path 15 None dither w) =
     Inl (CalledProcessError 1
            (extract_cmd ''/usr/bin/ffmpeg'' in_path ''fps=15,format=rgba''
               ''/tmp/tmpw/f_%06d.png'') [] (''boom'' @ [newline]))"
  "started (snd (make_gif_im (sample_env only_magick extract_fails) in_path out_path 15 None
      dither w)) =
     started w @
     [(extract_cmd ''/usr/bin/ffmpeg'' in_path ''fps=15,format=rgba''
         ''/tmp/tmpw/f_%06d.png'', Exited 1 [] (''boom'' @ [newline]))]"
  "tempdirs (snd (make_gif_im (sample_env only_magick extract_fails) in_path out_path 15 None
      dither w)) = tempdirs w @ [''/tmp/tmpw'']"
  "dialogs (snd (make_gif_im (sample_env only_magick extract_fails) in_path out_path 15 None
      dither w)) = dialogs w"
  "files (snd (make_gif_im (sample_env only_magick extract_fails) in_path out_path 15 None
      dither w)) =
     {p \<in> insert ''/tmp/tmpw/f_000001.png'' (insert ''/tmp/tmpw'' (files w)).
        \<not> in_tree ''/tmp/tmpw'' p}"
  by (simp_all add: make_gif_im_def sample_env_fields find_only_magick truthy_str_def
      delay_cs_15 vf_15_None Let_def with_temporary_directory_def pipeline_extract_fails
      path_join_def cleanup_def)

lemma world0_fields:
  "files world0 = {''/in/clip.webm''}" "started world0 = []" "tempdirs world0 = []"
  "dialogs world0 = []"
  by (simp_all add: world0_def)

theorem stages_strictly_sequential_witness:
  "get_ffmpeg_exe (sample_env only_magick extract_fails) = Inr ''/usr/bin/ffmpeg'' \<and>
   delay_cs 15 = Inr 7 \<and>
   mkdtemp (sample_env only_magick extract_fails) (files world0) = Inr ''/tmp/tmpw'' \<and>
   new_started world0
     (snd (make_gif_im (sample_env only_magick extract_fails) ''/in/clip.webm''
        ''/out/clip.gif'' 15 None None world0)) =
     [(extract_cmd ''/usr/bin/ffmpeg'' ''/in/clip.webm'' ''fps=15,format=rgba''
         ''/tmp/tmpw/f_%06d.png'', Exited 1 [] (''boom'' @ [newline]))] \<and>
   \<not> exited_ok (Exited 1 [] (''boom'' @ [newline]))"
  using stages_strictly_sequential [of world0 "sample_env only_magick extract_fails"
      "''/in/clip.webm''" "''/out/clip.gif''" 15 None None]
  by (simp add: make_gif_im_extract_fails new_started_def world0_fields delay_cs_15
      sample_env_fields)

lemma in_tree_path_join:
  "name \<noteq> [] \<Longrightarrow> hd name \<noteq> CHR ''/'' \<Longrightarrow> in_tree td (path_join td name)"
  by (simp add: in_tree_def path_join_def)

text \<open>
  Claim C5. When the executor returns, with a result or with any error, no path in the tree
  of a temporary directory that this call created exists any more: not the directory, not
  the palette, not any file in it. The directory is created whenever a stage is started.
\<close>

theorem workspace_never_outlives_call:
  "\<forall>T. T = new_tempdirs w (snd (make_gif_im env in_path out_path fps max_w dither w)) \<longrightarrow>
     (new_started w (snd (make_gif_im env in_path out_path fps max_w dither w)) \<noteq> [] \<longrightarrow>
        T \<noteq> []) \<and>
     (\<forall>td \<in> set T.
        td \<notin> files (snd (make_gif_im env in_path out_path fps max_w dither w)) \<and>
        path_join td ''palette.png'' \<notin>
          files (snd (make_gif_im env in_path out_path fps max_w dither w)) \<and>
        (\<forall>p. in_tree td p \<longrightarrow>
           p \<notin> files (snd (make_gif_im env in_path out_path fps max_w dither w))) \<and>
        (\<forall>name. name \<noteq> [] \<and> hd name \<noteq> CHR ''/'' \<longrightarrow>
           path_join td name \<notin>
             files (snd (make_gif_im env in_path out_path fps max_w dither w))))"
proof -
  let ?w' = "snd (make_gif_im env in_path out_path fps max_w dither w)"
  define L where "L = new_started w ?w'"
  define T where "T = new_tempdirs w ?w'"
  have LT: "L \<noteq> [] \<longrightarrow> T \<noteq> []"
    "\<forall>td \<in> set T. \<forall>p. in_tree td p \<longrightarrow> p \<notin> files ?w'"
    unfolding L_def T_def by (rule executor_trace(8), rule executor_trace(12))
  have nl: "new_started w ?w' = L" and nt: "new_tempdirs w ?w' = T"
    by (simp_all add: L_def T_def)
  have a: "td \<notin> files ?w'" if "td \<in> set T" for td
    using LT(2) that by (simp add: in_tree_def)
  have b: "path_join td name \<notin> files ?w'"
    if "td \<in> set T" "name \<noteq> []" "hd name \<noteq> CHR ''/''" for td name
    using LT(2) that in_tree_path_join by blast
  have c: "path_join td ''palette.png'' \<notin> files ?w'" if "td \<in> set T" for td
    using b [OF that, of "''palette.png''"] by simp
  show ?thesis
    unfolding nl nt using LT(1,2) a b c by blast
qed

theorem workspace_never_outlives_call_witness:
  "new_tempdirs world0
     (snd (make_gif_im (sample_env only_magick extract_fails) ''/in/clip.webm''
        ''/out/clip.gif'' 15 None None world0)) = [''/tmp/tmpw''] \<and>
   new_started world0
     (snd (make_gif_im (sample_env only_magick extract_fails) ''/in/clip.webm''
        ''/out/clip.gif'' 15 None None world0)) \<noteq> [] \<and>
   in_tree ''/tmp/tmpw'' ''/tmp/tmpw/f_000001.png'' \<and>
   ''/tmp/tmpw/f_000001.png'' \<notin>
     files (snd (make_gif_im (sample_env only_magick extract_fails) ''/in/clip.webm''
        ''/out/clip.gif'' 15 None None world0)) \<and>
   ''/in/clip.webm'' \<in>
     files (snd (make_gif_im (sample_env only_magick extract_fails) ''/in/clip.webm''
        ''/out/clip.gif'' 15 None None world0))"
  using workspace_never_outlives_call [of world0 "sample_env only_magick extract_fails"
      "''/in/clip.webm''" "''/out/clip.gif''" 15 None None]
  by (simp add: make_gif_im_extract_fails new_tempdirs_def new_started_def world0_fields
      in_tree_def path_join_def)

text \<open>
  Claim C6, as the code has it. The locator returns the path of \<^verbatim>\<open>magick\<close> when the
  search path has it, else that of \<^verbatim>\<open>convert\<close> when the search path has it. When it
  has neither, the executor leaves the world as it was (no invocation, no temporary
  directory); it raises the RuntimeError with the install hint when the transcoder had been
  located before, and the error of that lookup when it had not.
\<close>

theorem tool_locator_contract:
  "(which env ''magick'' = Some p \<and> p \<noteq> [] \<longrightarrow> find_imagemagick env = Some p) \<and>
   (which env ''magick'' = None \<and> which env ''convert'' = Some q \<and> q \<noteq> [] \<longrightarrow>
      find_imagemagick env = Some q) \<and>
   (which env ''magick'' = None \<and> which env ''convert'' = None \<longrightarrow>
      find_imagemagick env = None \<and>
      snd (make_gif_im env in_path out_path fps max_w dither w) = w \<and>
      new_started w (snd (make_gif_im env in_path out_path fps max_w dither w)) = [] \<and>
      (\<forall>ffmpeg. get_ffmpeg_exe env = Inr ffmpeg \<longrightarrow>
         fst (make_gif_im env in_path out_path fps max_w dither w) =
           Inl (RuntimeError im_not_found)) \<and>
      (\<forall>e. get_ffmpeg_exe env = Inl e \<longrightarrow>
         fst (make_gif_im env in_path out_path fps max_w dither w) = Inl e))"
  by (auto simp: find_imagemagick_def truthy_str_def make_gif_im_def Let_def new_started_def
      split: sum.splits)

theorem tool_locator_contract_witness:
  "which (sample_env only_magick extract_fails) ''magick'' = Some ''/usr/bin/magick'' \<and>
   ''/usr/bin/magick'' \<noteq> [] \<and>
   find_imagemagick (sample_env only_magick extract_fails) = Some ''/usr/bin/magick'' \<and>
   which (sample_env only_convert extract_fails) ''magick'' = None \<and>
   which (sample_env only_convert extract_fails) ''convert'' = Some ''/usr/bin/convert'' \<and>
   find_imagemagick (sample_env only_convert extract_fails) = Some ''/usr/bin/convert'' \<and>
   which (sample_env no_tool extract_fails) ''magick'' = None \<and>
   which (sample_env no_tool extract_fails) ''convert'' = None \<and>
   get_ffmpeg_exe (sample_env no_tool extract_fails) = Inr ''/usr/bin/ffmpeg'' \<and>
   make_gif_im (sample_env no_tool extract_fails) ''/in/clip.webm'' ''/out/clip.gif''
     15 None None world0 = (Inl (RuntimeError im_not_found), world0)"
  using
    tool_locator_contract [of "sample_env only_magick extract_fails" "''/usr/bin/magick''"]
    tool_locator_contract [of "sample_env only_convert extract_fails" _
      "''/usr/bin/convert''"]
    tool_locator_contract [of "sample_env no_tool extract_fails" _ _ "''/in/clip.webm''"
      "''/out/clip.gif''" 15 None None world0]
  by (simp add: sample_env_fields only_magick_def only_convert_def no_tool_def prod_eq_iff)

section \<open>Properties of the prompts and of the program\<close>

lemma show_dialog_fields:
  "dialogs (show_dialog d w) = dialogs w @ [d]"
  "started (show_dialog d w) = started w"
  "tempdirs (show_dialog d w) = tempdirs w"
  "files (show_dialog d w) = files w"
  by (simp_all add: show_dialog_def)

lemma ask_number_in_range:
  "fst (ask_number env title lo hi answers w) = Answered (Some n) \<Longrightarrow> lo \<le> n \<and> n \<le> hi"
proof (induction answers arbitrary: w)
  case Nil
  then show ?case by simp
next
  case (Cons a rest)
  then show ?case
    by (auto simp: Let_def split: option.splits if_splits)
qed

lemma ask_number_returns:
  "\<exists>a \<in> set answers. accepted env lo hi a \<Longrightarrow>
   fst (ask_number env title lo hi answers w) \<noteq> Waiting"
proof (induction answers arbitrary: w)
  case Nil
  then show ?case by simp
next
  case (Cons a rest)
  show ?case
  proof (cases "accepted env lo hi a")
    case True
    then show ?thesis
      by (auto simp: Let_def accepted_def blank_def split: option.splits)
  next
    case False
    then have "\<exists>a \<in> set rest. accepted env lo hi a" using Cons.prems by auto
    then have ih: "fst (ask_number env title lo hi rest w') \<noteq> Waiting" for w'
      using Cons.IH by blast
    show ?thesis
      by (cases a) (simp_all add: Let_def ih split: option.splits)
  qed
qed

lemma ask_number_world:
  "\<exists>D. dialogs (snd (ask_number env title lo hi answers w)) = dialogs w @ D \<and>
        (\<forall>d \<in> set D. prompt_dialog d) \<and>
        started (snd (ask_number env title lo hi answers w)) = started w \<and>
        tempdirs (snd (ask_number env title lo hi answers w)) = tempdirs w \<and>
        files (snd (ask_number env title lo hi answers w)) = files w"
proof (induction answers arbitrary: w)
  case Nil
  show ?case by (simp add: show_dialog_fields)
next
  case (Cons a rest)
  let ?w1 = "show_dialog (AskString title) w"
  let ?wa = "show_dialog (ShowError title ''Please enter a valid number.'') ?w1"
  let ?wb = "show_dialog (ShowError title (''Enter a value between '' @ str_int lo @
                                      '' and '' @ str_int hi @ ''.'')) ?w1"
  have "ask_number env title lo hi (a # rest) w = (Answered None, ?w1) \<or>
        (\<exists>num. ask_number env title lo hi (a # rest) w = (Answered (Some num), ?w1)) \<or>
        ask_number env title lo hi (a # rest) w = ask_number env title lo hi rest ?wa \<or>
        ask_number env title lo hi (a # rest) w = ask_number env title lo hi rest ?wb"
    by (cases a) (simp_all add: Let_def split: option.splits)
  then consider (stop) "snd (ask_number env title lo hi (a # rest) w) = ?w1"
    | (again_a) "snd (ask_number env title lo hi (a # rest) w) = snd (ask_number env title lo hi rest ?wa)"
    | (again_b) "snd (ask_number env title lo hi (a # rest) w) = snd (ask_number env title lo hi rest ?wb)"
    by (metis snd_conv)
  then show ?case
  proof cases
    case stop
    then show ?thesis by (simp add: show_dialog_fields)
  next
    case again_a
    obtain D where "dialogs (snd (ask_number env title lo hi rest ?wa)) = dialogs ?wa @ D"
      "\<forall>d \<in> set D. prompt_dialog d"
      "started (snd (ask_number env title lo hi rest ?wa)) = started ?wa"
      "tempdirs (snd (ask_number env title lo hi rest ?wa)) = tempdirs ?wa"
      "files (snd (ask_number env title lo hi rest ?wa)) = files ?wa"
      using Cons.IH [of ?wa] by blast
    then show ?thesis
      unfolding again_a
      by (intro exI [of _ "[AskString title, ShowError title ''Please enter a valid number.''] @ D"])
        (simp add: show_dialog_fields)
  next
    case again_b
    obtain D where "dialogs (snd (ask_number env title lo hi rest ?wb)) = dialogs ?wb @ D"
      "\<forall>d \<in> set D. prompt_dialog d"
      "started (snd (ask_number env title lo hi rest ?wb)) = started ?wb"
      "tempdirs (snd (ask_number env title lo hi rest ?wb)) = tempdirs ?wb"
      "files (snd (ask_number env title lo hi rest ?wb)) = files ?wb"
      using Cons.IH [of ?wb] by blast
    then show ?thesis
      unfolding again_b
      by (intro exI [of _ "[AskString title, ShowError title (''Enter a value between '' @
            str_int lo @ '' and '' @ str_int hi @ ''.'')] @ D"])
        (simp add: show_dialog_fields)
  qed
qed

lemma settings_in_range:
  assumes "fst (settings env u w) = Answered (fps, max_w)"
  shows "1 \<le> fps \<and> fps \<le> 60 \<and> (\<forall>m. max_w = Some m \<longrightarrow> 32 \<le> m \<and> m \<le> 4096)"
proof -
  obtain r1 w1 where a1: "ask_number env ''Frames per Second'' 1 60 (fps_answers u) w = (r1, w1)"
    by (cases "ask_number env ''Frames per Second'' 1 60 (fps_answers u) w")
  obtain r2 w2 where a2: "ask_number env ''Max Width (optional)'' 32 4096 (width_answers u) w1 = (r2, w2)"
    by (cases "ask_number env ''Max Width (optional)'' 32 4096 (width_answers u) w1")
  from assms obtain r where r: "r1 = Answered r" "r2 = Answered max_w"
    "fps = (case r of None \<Rightarrow> 15 | Some n \<Rightarrow> n)"
    by (auto simp: settings_def a1 a2 Let_def split: prompt.splits)
  have f: "1 \<le> fps \<and> fps \<le> 60"
  proof (cases r)
    case None
    then show ?thesis using r(3) by simp
  next
    case (Some n)
    then show ?thesis
      using ask_number_in_range [of env "''Frames per Second''" 1 60 "fps_answers u" w n] a1 r
      by simp
  qed
  have "32 \<le> m \<and> m \<le> 4096" if "max_w = Some m" for m
    using ask_number_in_range [of env "''Max Width (optional)''" 32 4096 "width_answers u" w1 m]
      a2 r that by simp
  then show ?thesis using f by blast
qed

lemma ask_number_fst_world:
  "fst (ask_number env title lo hi answers w) = fst (ask_number env title lo hi answers w')"
proof (induction answers arbitrary: w w')
  case Nil
  show ?case by simp
next
  case (Cons a rest)
  show ?case
    using Cons.IH by (cases a) (auto simp: Let_def split: option.splits)
qed

lemma ask_number_rejected:
  assumes "\<not> accepted env lo hi a"
  shows "fst (ask_number env title lo hi (a # rest) w) =
         fst (ask_number env title lo hi rest w)"
proof -
  obtain s where a: "a = Some s" using assms by (cases a) (simp_all add: accepted_def blank_def)
  have "\<exists>w'. ask_number env title lo hi (a # rest) w = ask_number env title lo hi rest w'"
    using assms by (auto simp: a accepted_def blank_def Let_def split: option.splits)
  then show ?thesis using ask_number_fst_world by metis
qed

lemma ask_number_accepted:
  assumes "accepted env lo hi a"
  shows "fst (ask_number env title lo hi (a # rest) w) =
         Answered (if blank env a then None else py_int env (py_strip env (the a)))"
  using assms by (cases a) (auto simp: accepted_def blank_def Let_def split: option.splits)

lemma ask_number_first_accepted:
  assumes "\<forall>b \<in> set pre. \<not> accepted env lo hi b" and "accepted env lo hi a"
  shows "fst (ask_number env title lo hi (pre @ a # rest) w) =
         Answered (if blank env a then None else py_int env (py_strip env (the a)))"
  using assms
proof (induction pre arbitrary: w)
  case Nil
  then show ?case using ask_number_accepted by simp
next
  case (Cons b pre)
  then show ?case using ask_number_rejected [of env lo hi b] by simp
qed

lemma blank_accepted: "blank env a \<Longrightarrow> accepted env lo hi a"
  by (simp add: accepted_def)

lemma settings_alt:
  "settings env u w =
     (case fst (ask_number env ''Frames per Second'' 1 60 (fps_answers u) w) of
        Waiting \<Rightarrow>
          (Waiting, snd (ask_number env ''Frames per Second'' 1 60 (fps_answers u) w))
      | Answered r \<Rightarrow>
          (case fst (ask_number env ''Max Width (optional)'' 32 4096 (width_answers u)
                       (snd (ask_number env ''Frames per Second'' 1 60 (fps_answers u) w))) of
             Waiting \<Rightarrow>
               (Waiting,
                snd (ask_number env ''Max Width (optional)'' 32 4096 (width_answers u)
                       (snd (ask_number env ''Frames per Second'' 1 60 (fps_answers u) w))))
           | Answered max_w \<Rightarrow>
               (Answered (case r of None \<Rightarrow> 15 | Some n \<Rightarrow> n, max_w),
                snd (ask_number env ''Max Width (optional)'' 32 4096 (width_answers u)
                       (snd (ask_number env ''Frames per Second'' 1 60 (fps_answers u) w))))))"
  by (simp add: settings_def Let_def split: prod.splits prompt.splits)

lemma settings_blank:
  assumes "fst (settings env u w) = Answered (fps, max_w)"
  shows "(\<forall>pre a rest.
            fps_answers u = pre @ a # rest \<and> (\<forall>b \<in> set pre. \<not> accepted env 1 60 b) \<and>
            blank env a \<longrightarrow> fps = 15) \<and>
         (\<forall>pre a rest.
            width_answers u = pre @ a # rest \<and>
            (\<forall>b \<in> set pre. \<not> accepted env 32 4096 b) \<and> blank env a \<longrightarrow> max_w = None)"
proof (intro conjI allI impI)
  fix pre a rest
  assume h: "fps_answers u = pre @ a # rest \<and> (\<forall>b \<in> set pre. \<not> accepted env 1 60 b) \<and>
            blank env a"
  then have "fst (ask_number env ''Frames per Second'' 1 60 (fps_answers u) w) = Answered None"
    using ask_number_first_accepted [of pre env 1 60 a "''Frames per Second''" rest w]
      blank_accepted [of env a 1 60] by simp
  then show "fps = 15"
    using assms by (simp add: settings_alt split: prompt.splits)
next
  fix pre a rest
  assume h: "width_answers u = pre @ a # rest \<and>
            (\<forall>b \<in> set pre. \<not> accepted env 32 4096 b) \<and> blank env a"
  let ?w1 = "snd (ask_number env ''Frames per Second'' 1 60 (fps_answers u) w)"
  have "fst (ask_number env ''Max Width (optional)'' 32 4096 (width_answers u) ?w1) =
      Answered None"
    using h ask_number_first_accepted [of pre env 32 4096 a "''Max Width (optional)''" rest ?w1]
      blank_accepted [of env a 32 4096] by simp
  then show "max_w = None"
    using assms by (simp add: settings_alt split: prompt.splits)
qed

lemma conversion_alt:
  "conversion env u in_path out_path fps max_w w =
     (case fst (make_gif_im env in_path out_path fps max_w (Some ''Riemersma'')
                  (show_dialog (ShowInfo ''Converting'') w)) of
        Inl e \<Rightarrow>
          report_failure env e
            (snd (make_gif_im env in_path out_path fps max_w (Some ''Riemersma'')
                    (show_dialog (ShowInfo ''Converting'') w)))
      | Inr r \<Rightarrow>
          open_folder_step env u out_path
            (show_dialog (ShowInfo ''Done'')
               (snd (make_gif_im env in_path out_path fps max_w (Some ''Riemersma'')
                       (show_dialog (ShowInfo ''Converting'') w)))))"
  by (simp add: conversion_def split: prod.splits sum.splits)

lemma make_gif_im_dialogs:
  "dialogs (snd (make_gif_im env in_path out_path fps max_w dither w)) = dialogs w"
  by (rule executor_trace(3))

lemma report_failure_dialogs:
  "\<exists>m. dialogs (report_failure env e w) = dialogs w @ [ShowError ''Error'' m]"
  by (cases e) (simp_all add: report_failure_def show_dialog_fields Let_def)

lemma open_folder_step_dialogs:
  "dialogs (open_folder_step env u out_path w) = dialogs w @ [AskYesNo ''Open Folder?'']"
  by (simp add: open_folder_step_def Let_def show_dialog_fields subprocess_run_unchecked_def
      split: prod.splits)

lemma conversion_dialogs:
  "\<exists>D. dialogs (conversion env u in_path out_path fps max_w w) = dialogs w @ D \<and>
        AskYesNo ''Continue?'' \<notin> set D"
proof -
  let ?M = "make_gif_im env in_path out_path fps max_w (Some ''Riemersma'')
              (show_dialog (ShowInfo ''Converting'') w)"
  show ?thesis
  proof (cases "fst ?M")
    case (Inl e)
    obtain m where "dialogs (report_failure env e (snd ?M)) =
        dialogs (snd ?M) @ [ShowError ''Error'' m]"
      using report_failure_dialogs by blast
    then show ?thesis
      by (intro exI [of _ "[ShowInfo ''Converting'', ShowError ''Error'' m]"])
        (simp add: conversion_alt Inl make_gif_im_dialogs show_dialog_fields)
  next
    case (Inr r)
    show ?thesis
      by (intro exI [of _ "[ShowInfo ''Converting'', ShowInfo ''Done'',
            AskYesNo ''Open Folder?'']"])
        (simp add: conversion_alt Inr make_gif_im_dialogs show_dialog_fields
          open_folder_step_dialogs)
  qed
qed

lemma settings_dialogs:
  "\<exists>D. dialogs (snd (settings env u w)) = dialogs w @ D \<and> (\<forall>d \<in> set D. prompt_dialog d)"
proof -
  let ?A = "ask_number env ''Frames per Second'' 1 60 (fps_answers u) w"
  let ?B = "ask_number env ''Max Width (optional)'' 32 4096 (width_answers u) (snd ?A)"
  obtain D1 where d1: "dialogs (snd ?A) = dialogs w @ D1" "\<forall>d \<in> set D1. prompt_dialog d"
    using ask_number_world [of env "''Frames per Second''" 1 60 "fps_answers u" w] by blast
  obtain D2 where d2: "dialogs (snd ?B) = dialogs (snd ?A) @ D2" "\<forall>d \<in> set D2. prompt_dialog d"
    using ask_number_world [of env "''Max Width (optional)''" 32 4096 "width_answers u" "snd ?A"]
    by blast
  have "snd (settings env u w) = snd ?A \<or> snd (settings env u w) = snd ?B"
    by (simp add: settings_def Let_def split: prod.splits prompt.splits)
  then show ?thesis
  proof
    assume "snd (settings env u w) = snd ?A"
    then show ?thesis using d1 by auto
  next
    assume "snd (settings env u w) = snd ?B"
    then show ?thesis using d1 d2 by (intro exI [of _ "D1 @ D2"]) auto
  qed
qed

lemma main_from_save_alt:
  "main_from_save env u in_path w =
     (if save_choice u = [] then (Answered (), show_dialog (AskSaveFile ''Save GIF as...'') w)
      else
        (case fst (settings env u (show_dialog (AskSaveFile ''Save GIF as...'') w)) of
           Waiting \<Rightarrow>
             (Waiting, snd (settings env u (show_dialog (AskSaveFile ''Save GIF as...'') w)))
         | Answered fm \<Rightarrow>
             (Answered (),
              conversion env u in_path (save_choice u) (fst fm) (snd fm)
                (snd (settings env u (show_dialog (AskSaveFile ''Save GIF as...'') w))))))"
  by (simp add: main_from_save_def Let_def split: prod.splits prompt.splits)

lemma main_from_save_dialogs:
  "\<exists>D. dialogs (snd (main_from_save env u in_path w)) =
          dialogs w @ AskSaveFile ''Save GIF as...'' # D \<and>
        AskYesNo ''Continue?'' \<notin> set D"
proof -
  let ?w1 = "show_dialog (AskSaveFile ''Save GIF as...'') w"
  obtain D1 where d1: "dialogs (snd (settings env u ?w1)) = dialogs ?w1 @ D1"
    "\<forall>d \<in> set D1. prompt_dialog d"
    using settings_dialogs by blast
  have n1: "AskYesNo ''Continue?'' \<notin> set D1" using d1(2) by auto
  show ?thesis
  proof (cases "save_choice u = []")
    case True
    then show ?thesis
      by (intro exI [of _ "[]"]) (simp add: main_from_save_alt show_dialog_fields)
  next
    case False
    show ?thesis
    proof (cases "fst (settings env u ?w1)")
      case Waiting
      then have "snd (main_from_save env u in_path w) = snd (settings env u ?w1)"
        using False by (simp add: main_from_save_alt)
      then show ?thesis using d1(1) n1
        by (intro exI [of _ D1]) (simp add: show_dialog_fields)
    next
      case (Answered fm)
      obtain fps max_w where fm: "fm = (fps, max_w)" by (cases fm)
      have m: "snd (main_from_save env u in_path w) =
          conversion env u in_path (save_choice u) fps max_w (snd (settings env u ?w1))"
        using False Answered fm by (simp add: main_from_save_alt)
      obtain D2 where d2:
        "dialogs (conversion env u in_path (save_choice u) fps max_w (snd (settings env u ?w1))) =
           dialogs (snd (settings env u ?w1)) @ D2" "AskYesNo ''Continue?'' \<notin> set D2"
        using conversion_dialogs by blast
      show ?thesis
        by (intro exI [of _ "D1 @ D2"]) (use n1 d1(1) d2 in \<open>simp add: m show_dialog_fields\<close>)
    qed
  qed
qed

text \<open>
  Claim C10. For a selected input path, the dialog \<^verbatim>\<open>Continue?\<close> is among the dialogs of
  the run exactly when the lower-cased path does not end with \<^verbatim>\<open>.webm\<close>; when it does
  end so, the run goes on to the dialog for the target. The path \<^verbatim>\<open>/in/CLIP.WEBM\<close> is
  accepted without the confirmation.
\<close>

theorem webm_check_ignores_case:
  "open_choice u \<noteq> [] \<longrightarrow>
     (AskYesNo ''Continue?'' \<in> set (new_dialogs w (snd (main env u w)))) =
       (\<not> endswith (lower (open_choice u)) ''.webm'') \<and>
     (endswith (lower (open_choice u)) ''.webm'' \<longrightarrow>
        AskSaveFile ''Save GIF as...'' \<in> set (new_dialogs w (snd (main env u w))))"
proof (intro impI)
  assume sel: "open_choice u \<noteq> []"
  let ?t = "ShowInfo (''WEBM '' @ [CHR 0xE2, CHR 0x86, CHR 0x92] @ '' GIF'')"
  let ?o = "AskOpenFile ''Select a WEBM file''"
  let ?w2 = "show_dialog ?o (show_dialog ?t w)"
  let ?w3 = "show_dialog (AskYesNo ''Continue?'') ?w2"
  show "(AskYesNo ''Continue?'' \<in> set (new_dialogs w (snd (main env u w)))) =
          (\<not> endswith (lower (open_choice u)) ''.webm'') \<and>
        (endswith (lower (open_choice u)) ''.webm'' \<longrightarrow>
           AskSaveFile ''Save GIF as...'' \<in> set (new_dialogs w (snd (main env u w))))"
  proof (cases "endswith (lower (open_choice u)) ''.webm''")
    case True
    obtain D where D: "dialogs (snd (main_from_save env u (open_choice u) ?w2)) =
        dialogs ?w2 @ AskSaveFile ''Save GIF as...'' # D" "AskYesNo ''Continue?'' \<notin> set D"
      using main_from_save_dialogs by blast
    have "snd (main env u w) = snd (main_from_save env u (open_choice u) ?w2)"
      using sel True by (simp add: main_def Let_def)
    then have "new_dialogs w (snd (main env u w)) = [?t, ?o, AskSaveFile ''Save GIF as...''] @ D"
      using D(1) by (simp add: new_dialogs_def show_dialog_fields)
    then show ?thesis using True D(2) by simp
  next
    case False
    show ?thesis
    proof (cases "confirm_non_webm u")
      case no: False
      have "snd (main env u w) = ?w3"
        using sel False no by (simp add: main_def Let_def)
      then have "new_dialogs w (snd (main env u w)) = [?t, ?o, AskYesNo ''Continue?'']"
        by (simp add: new_dialogs_def show_dialog_fields)
      then show ?thesis using False by simp
    next
      case yes: True
      obtain D where D: "dialogs (snd (main_from_save env u (open_choice u) ?w3)) =
          dialogs ?w3 @ AskSaveFile ''Save GIF as...'' # D"
        using main_from_save_dialogs by blast
      have "snd (main env u w) = snd (main_from_save env u (open_choice u) ?w3)"
        using sel False yes by (simp add: main_def Let_def)
      then have "new_dialogs w (snd (main env u w)) =
          [?t, ?o, AskYesNo ''Continue?'', AskSaveFile ''Save GIF as...''] @ D"
        using D(1) by (simp add: new_dialogs_def show_dialog_fields)
      then show ?thesis using False by simp
    qed
  qed
qed

lemma lower_sample: "lower ''/in/CLIP.WEBM'' = ''/in/clip.webm''"
  by (simp add: lower_def lower_char_def)

lemma endswith_sample:
  "endswith ''/in/clip.webm'' ''.webm''" "\<not> endswith ''/in/clip.mp4'' ''.webm''"
  by (simp_all add: endswith_def suffix_to_prefix)

lemma sample_text_functions:
  "sample_strip ''abc'' = ''abc''" "sample_strip ''99'' = ''99''" "sample_strip [] = []"
  "sample_strip '' 24 '' = ''24''"
  "sample_int ''abc'' = None" "sample_int ''99'' = Some 99" "sample_int ''24'' = Some 24"
  "sample_int ''-5'' = Some (- 5)" "sample_int ''1_0'' = Some 10" "sample_int ''1__0'' = None"
  by (simp_all add: sample_strip_def sample_int_def is_space_def is_digit_def)

lemma sample_user_fields:
  "open_choice sample_user = ''/in/CLIP.WEBM''" "confirm_non_webm sample_user = False"
  "save_choice sample_user = ''/out/clip.gif''"
  "fps_answers sample_user = [Some ''abc'', Some ''99'', Some []]"
  "width_answers sample_user = [None]" "open_folder sample_user = False"
  by (simp_all add: sample_user_def)

lemma ask_number_sample:
  "fst (ask_number (sample_env wh run) title 1 60 [Some ''abc'', Some ''99'', Some []] w) =
     Answered None"
  "dialogs (snd (ask_number (sample_env wh run) title 1 60
      [Some ''abc'', Some ''99'', Some []] w)) =
     dialogs w @
     [AskString title, ShowError title ''Please enter a valid number.'',
      AskString title, ShowError title ''Enter a value between 1 and 60.'',
      AskString title]"
  "started (snd (ask_number (sample_env wh run) title 1 60
      [Some ''abc'', Some ''99'', Some []] w)) = started w"
  by (simp_all add: Let_def sample_env_fields sample_strip_def is_space_def sample_int_def
      is_digit_def show_dialog_fields str_int_def str_nat.simps digit_char_def)

lemma settings_sample:
  "fst (settings (sample_env wh run) sample_user w) = Answered (15, None)"
  "dialogs (snd (settings (sample_env wh run) sample_user w)) =
     dialogs w @
     [AskString ''Frames per Second'',
      ShowError ''Frames per Second'' ''Please enter a valid number.'',
      AskString ''Frames per Second'',
      ShowError ''Frames per Second'' ''Enter a value between 1 and 60.'',
      AskString ''Frames per Second'', AskString ''Max Width (optional)'']"
  "started (snd (settings (sample_env wh run) sample_user w)) = started w"
  by (simp_all add: settings_alt sample_user_fields Let_def sample_env_fields sample_strip_def
      is_space_def sample_int_def is_digit_def show_dialog_fields str_int_def str_nat.simps
      digit_char_def)

lemma sample_answers:
  "\<not> accepted (sample_env wh run) 1 60 (Some ''abc'')"
  "\<not> accepted (sample_env wh run) 1 60 (Some ''99'')"
  "accepted (sample_env wh run) 1 60 (Some '' 24 '')"
  "blank (sample_env wh run) (Some [])" "blank (sample_env wh run) None"
  by (simp_all add: accepted_def blank_def sample_env_fields sample_strip_def is_space_def
      sample_int_def is_digit_def)

text \<open>
  Claim C8. A blank or cancelled answer, given first or after answers that were rejected,
  makes the prompt return \<open>None\<close>; a number that the prompt returns lies in its range; an
  answer that is not accepted makes the prompt show an error and ask again; the prompt
  returns as soon as one answer is accepted. The settings of a run are an \<open>fps\<close> from 1 to
  60, which is 15 after a blank answer, and a maximal width that is absent after a blank
  answer (the filter string then has no scale clause) or lies between 32 and 4096; these
  are the values that the conversion is called with.
\<close>

theorem numeric_prompt_contract:
  "(\<forall>pre. (\<forall>b \<in> set pre. \<not> accepted env lo hi b) \<and> blank env a \<longrightarrow>
      fst (ask_number env title lo hi (pre @ a # rest) w) = Answered None) \<and>
   (fst (ask_number env title lo hi answers w) = Answered (Some n) \<longrightarrow> lo \<le> n \<and> n \<le> hi) \<and>
   (\<not> accepted env lo hi a \<longrightarrow>
      (\<exists>m. ask_number env title lo hi (a # rest) w =
            ask_number env title lo hi rest
              (show_dialog (ShowError title m) (show_dialog (AskString title) w)))) \<and>
   ((\<exists>b \<in> set answers. accepted env lo hi b) \<longrightarrow>
      fst (ask_number env title lo hi answers w) \<noteq> Waiting) \<and>
   (fst (settings env u w) = Answered (fps, max_w) \<longrightarrow>
      1 \<le> fps \<and> fps \<le> 60 \<and> (\<forall>m. max_w = Some m \<longrightarrow> 32 \<le> m \<and> m \<le> 4096) \<and>
      (\<forall>pre b bs.
         fps_answers u = pre @ b # bs \<and> (\<forall>c \<in> set pre. \<not> accepted env 1 60 c) \<and>
         blank env b \<longrightarrow> fps = 15) \<and>
      (\<forall>pre b bs.
         width_answers u = pre @ b # bs \<and> (\<forall>c \<in> set pre. \<not> accepted env 32 4096 c) \<and>
         blank env b \<longrightarrow>
         max_w = None \<and> vf fps max_w = ''fps='' @ str_int fps @ '',format=rgba'')) \<and>
   (save_choice u \<noteq> [] \<and>
    fst (settings env u (show_dialog (AskSaveFile ''Save GIF as...'') w)) =
      Answered (fps, max_w) \<longrightarrow>
      snd (main_from_save env u in_path w) =
        conversion env u in_path (save_choice u) fps max_w
          (snd (settings env u (show_dialog (AskSaveFile ''Save GIF as...'') w))))"
proof -
  have 1: "\<forall>pre. (\<forall>b \<in> set pre. \<not> accepted env lo hi b) \<and> blank env a \<longrightarrow>
      fst (ask_number env title lo hi (pre @ a # rest) w) = Answered None"
    using ask_number_first_accepted [of _ env lo hi a title rest w] blank_accepted [of env a lo hi]
    by simp
  have 2: "fst (ask_number env title lo hi answers w) = Answered (Some n) \<longrightarrow>
      lo \<le> n \<and> n \<le> hi"
    using ask_number_in_range [of env title lo hi answers w n] by blast
  have 3: "\<not> accepted env lo hi a \<longrightarrow>
      (\<exists>m. ask_number env title lo hi (a # rest) w =
            ask_number env title lo hi rest
              (show_dialog (ShowError title m) (show_dialog (AskString title) w)))"
    by (cases a) (auto simp: accepted_def blank_def Let_def split: option.splits)
  have 4: "(\<exists>b \<in> set answers. accepted env lo hi b) \<longrightarrow>
      fst (ask_number env title lo hi answers w) \<noteq> Waiting"
    using ask_number_returns [of answers env lo hi title w] by blast
  have 5: "fst (settings env u w) = Answered (fps, max_w) \<longrightarrow>
      1 \<le> fps \<and> fps \<le> 60 \<and> (\<forall>m. max_w = Some m \<longrightarrow> 32 \<le> m \<and> m \<le> 4096) \<and>
      (\<forall>pre b bs.
         fps_answers u = pre @ b # bs \<and> (\<forall>c \<in> set pre. \<not> accepted env 1 60 c) \<and>
         blank env b \<longrightarrow> fps = 15) \<and>
      (\<forall>pre b bs.
         width_answers u = pre @ b # bs \<and> (\<forall>c \<in> set pre. \<not> accepted env 32 4096 c) \<and>
         blank env b \<longrightarrow>
         max_w = None \<and> vf fps max_w = ''fps='' @ str_int fps @ '',format=rgba'')"
  proof
    assume s: "fst (settings env u w) = Answered (fps, max_w)"
    have r: "1 \<le> fps \<and> fps \<le> 60 \<and> (\<forall>m. max_w = Some m \<longrightarrow> 32 \<le> m \<and> m \<le> 4096)"
      by (rule settings_in_range [OF s])
    note b = settings_blank [OF s]
    have v: "vf fps None = ''fps='' @ str_int fps @ '',format=rgba''"
      by (simp add: vf_def filters_def truthy_int_def)
    show "1 \<le> fps \<and> fps \<le> 60 \<and> (\<forall>m. max_w = Some m \<longrightarrow> 32 \<le> m \<and> m \<le> 4096) \<and>
      (\<forall>pre b bs.
         fps_answers u = pre @ b # bs \<and> (\<forall>c \<in> set pre. \<not> accepted env 1 60 c) \<and>
         blank env b \<longrightarrow> fps = 15) \<and>
      (\<forall>pre b bs.
         width_answers u = pre @ b # bs \<and> (\<forall>c \<in> set pre. \<not> accepted env 32 4096 c) \<and>
         blank env b \<longrightarrow>
         max_w = None \<and> vf fps max_w = ''fps='' @ str_int fps @ '',format=rgba'')"
      using r b [THEN conjunct1] b [THEN conjunct2] v by metis
  qed
  have 6: "save_choice u \<noteq> [] \<and>
    fst (settings env u (show_dialog (AskSaveFile ''Save GIF as...'') w)) =
      Answered (fps, max_w) \<longrightarrow>
      snd (main_from_save env u in_path w) =
        conversion env u in_path (save_choice u) fps max_w
          (snd (settings env u (show_dialog (AskSaveFile ''Save GIF as...'') w)))"
    by (simp add: main_from_save_alt)
  show ?thesis
    by (rule conjI [OF 1 conjI [OF 2 conjI [OF 3 conjI [OF 4 conjI [OF 5 6]]]]])
qed

section \<open>Sample runs, the filter of the palette stage, failure reports and the dither\<close>

theorem numeric_prompt_contract_witness:
  "\<not> accepted (sample_env only_magick extract_fails) 1 60 (Some ''abc'') \<and>
   \<not> accepted (sample_env only_magick extract_fails) 1 60 (Some ''99'') \<and>
   blank (sample_env only_magick extract_fails) (Some []) \<and>
   accepted (sample_env only_magick extract_fails) 1 60 (Some '' 24 '') \<and>
   fst (ask_number (sample_env only_magick extract_fails) ''Frames per Second'' 1 60
          [Some ''abc'', Some ''99'', Some []] world0) = Answered None \<and>
   fst (ask_number (sample_env only_magick extract_fails) ''Frames per Second'' 1 60
          [Some ''99'', Some '' 24 ''] world0) = Answered (Some 24) \<and>
   fps_answers sample_user = [Some ''abc'', Some ''99''] @ Some [] # [] \<and>
   width_answers sample_user = [] @ None # [] \<and>
   save_choice sample_user \<noteq> [] \<and>
   fst (settings (sample_env only_magick extract_fails) sample_user world0) =
     Answered (15, None) \<and>
   vf 15 None = ''fps=15,format=rgba''"
  using
    numeric_prompt_contract [of "sample_env only_magick extract_fails" 1 60 "Some []"
      "''Frames per Second''" "[]" world0 "[Some ''99'', Some '' 24 '']" 24 sample_user
      15 None "''/in/CLIP.WEBM''"]
    numeric_prompt_contract [of "sample_env only_magick extract_fails" 1 60 "Some ''abc''"
      "''Frames per Second''" "[Some ''99'', Some []]" world0
      "[Some ''abc'', Some ''99'', Some []]"]
  by (simp add: sample_answers settings_sample sample_user_fields vf_15_None Let_def
      sample_env_fields sample_strip_def is_space_def sample_int_def is_digit_def)

theorem webm_check_ignores_case_witness:
  "open_choice sample_user \<noteq> [] \<and>
   lower (open_choice sample_user) = ''/in/clip.webm'' \<and>
   endswith (lower (open_choice sample_user)) ''.webm'' \<and>
   AskYesNo ''Continue?'' \<notin>
     set (new_dialogs world0 (snd (main (sample_env only_magick extract_fails) sample_user
        world0))) \<and>
   AskSaveFile ''Save GIF as...'' \<in>
     set (new_dialogs world0 (snd (main (sample_env only_magick extract_fails) sample_user
        world0))) \<and>
   \<not> endswith (lower (open_choice (sample_user\<lparr>open_choice := ''/in/clip.mp4''\<rparr>))) ''.webm'' \<and>
   AskYesNo ''Continue?'' \<in>
     set (new_dialogs world0 (snd (main (sample_env only_magick extract_fails)
        (sample_user\<lparr>open_choice := ''/in/clip.mp4''\<rparr>) world0)))"
  using
    webm_check_ignores_case [of sample_user world0 "sample_env only_magick extract_fails"]
    webm_check_ignores_case [of "sample_user\<lparr>open_choice := ''/in/clip.mp4''\<rparr>" world0
      "sample_env only_magick extract_fails"]
  by (simp add: sample_user_fields lower_sample endswith_sample lower_def lower_char_def)

lemma pipeline_all_succeed:
  "fst (pipeline (sample_env wh all_succeed) ffmpeg im in_path out_path v delay dither td w) =
     Inr ()"
  "started (snd (pipeline (sample_env wh all_succeed) ffmpeg im in_path out_path v delay dither
      td w)) =
     started w @
     [(extract_cmd ffmpeg in_path v (path_join td ''f_%06d.png''), Exited 0 [] []),
      (palette_cmd ffmpeg in_path v (path_join td ''palette.png''), Exited 0 [] []),
      (assemble_cmd im delay (path_join td ''f_*.png'') (path_join td ''palette.png'') dither
         out_path, Exited 0 [] [])]"
  by (simp_all add: pipeline_def subprocess_run_eq sample_env_fields all_succeed_def
      check_outcome_def Let_def)

lemma with_temporary_directory_alt:
  "with_temporary_directory env body w =
     (case mkdtemp env (files w) of
        Inl e \<Rightarrow> (Inl e, w)
      | Inr td \<Rightarrow>
          (fst (body td (w\<lparr>files := insert td (files w), tempdirs := tempdirs w @ [td]\<rparr>)),
           cleanup td
             (snd (body td (w\<lparr>files := insert td (files w),
                               tempdirs := tempdirs w @ [td]\<rparr>)))))"
  by (simp add: with_temporary_directory_def Let_def split: prod.splits sum.splits)

lemma make_gif_im_all_succeed:
  "fst (make_gif_im (sample_env only_magick all_succeed) in_path out_path 15 None dither w) =
     Inr ()"
  "started (snd (make_gif_im (sample_env only_magick all_succeed) in_path out_path 15 None
      dither w)) =
     started w @
     [(extract_cmd ''/usr/bin/ffmpeg'' in_path ''fps=15,format=rgba''
         ''/tmp/tmpw/f_%06d.png'', Exited 0 [] []),
      (palette_cmd ''/usr/bin/ffmpeg'' in_path ''fps=15,format=rgba''
         ''/tmp/tmpw/palette.png'', Exited 0 [] []),
      (assemble_cmd ''/usr/bin/magick'' 7 ''/tmp/tmpw/f_*.png'' ''/tmp/tmpw/palette.png''
         (dither_arg dither) out_path, Exited 0 [] [])]"
  by (simp_all add: make_gif_im_def sample_env_fields find_only_magick truthy_str_def
      delay_cs_15 vf_15_None Let_def with_temporary_directory_alt pipeline_all_succeed
      path_join_def cleanup_def)





text \<open>
  Claim C3. In every call of the executor the first invocation, if there is one, is the
  transcoder with the filter string \<open>vf fps max_w\<close> after \<^verbatim>\<open>-vf\<close>; there is one
  whenever the tools were found, the delay was computed and the workspace was created. When
  it exits with status 0 a second invocation follows, and the second invocation is the
  transcoder on the same input with, after \<^verbatim>\<open>-vf\<close>, the filter string of the first
  followed by \<^verbatim>\<open>,palettegen=stats_mode=full\<close>.
\<close>

theorem palette_stage_reuses_extract_filter:
  "\<forall>L. L = new_started w (snd (make_gif_im env in_path out_path fps max_w dither w)) \<longrightarrow>
     (\<forall>ffmpeg delay td.
        get_ffmpeg_exe env = Inr ffmpeg \<and> truthy_str (find_imagemagick env) \<and>
        delay_cs fps = Inr delay \<and> mkdtemp env (files w) = Inr td \<longrightarrow> L \<noteq> []) \<and>
     (L \<noteq> [] \<longrightarrow>
        argv (fst (L ! 0)) ! 3 = in_path \<and> argv (fst (L ! 0)) ! 4 = ''-vf'' \<and>
        argv (fst (L ! 0)) ! 5 = vf fps max_w) \<and>
     (L \<noteq> [] \<and> check_outcome (fst (L ! 0)) (snd (L ! 0)) = Inr () \<longrightarrow> 2 \<le> length L) \<and>
     (2 \<le> length L \<longrightarrow>
        argv (fst (L ! 1)) ! 3 = in_path \<and> argv (fst (L ! 1)) ! 4 = ''-vf'' \<and>
        argv (fst (L ! 1)) ! 5 = argv (fst (L ! 0)) ! 5 @ '',palettegen=stats_mode=full'')"
proof (intro allI impI)
  fix L
  assume Ldef: "L = new_started w (snd (make_gif_im env in_path out_path fps max_w dither w))"
  let ?M = "make_gif_im env in_path out_path fps max_w dither w"
  have reach: "\<forall>ffmpeg delay td.
        get_ffmpeg_exe env = Inr ffmpeg \<and> truthy_str (find_imagemagick env) \<and>
        delay_cs fps = Inr delay \<and> mkdtemp env (files w) = Inr td \<longrightarrow> L \<noteq> []"
    unfolding Ldef by (rule executor_trace(10))
  have cmds: "\<forall>ffmpeg delay td.
        get_ffmpeg_exe env = Inr ffmpeg \<and> delay_cs fps = Inr delay \<and>
        mkdtemp env (files w) = Inr td \<longrightarrow>
        map fst L =
          take (length L)
            [extract_cmd ffmpeg in_path (vf fps max_w) (path_join td ''f_%06d.png''),
             palette_cmd ffmpeg in_path (vf fps max_w) (path_join td ''palette.png''),
             assemble_cmd (the (find_imagemagick env)) delay (path_join td ''f_*.png'')
               (path_join td ''palette.png'') (dither_arg dither) out_path]"
    unfolding Ldef by (rule executor_trace(7))
  have ex: "L \<noteq> [] \<longrightarrow>
        (\<exists>ffmpeg delay td.
           get_ffmpeg_exe env = Inr ffmpeg \<and> delay_cs fps = Inr delay \<and>
           mkdtemp env (files w) = Inr td)"
    unfolding Ldef by (rule executor_trace(11))
  have res: "L \<noteq> [] \<longrightarrow> fst ?M = check_outcome (fst (last L)) (snd (last L))"
    unfolding Ldef by (rule executor_trace(6))
  have short: "L \<noteq> [] \<and> length L < 3 \<longrightarrow> (\<exists>e. fst ?M = Inl e)"
    unfolding Ldef by (rule executor_trace(9))
  have first: "argv (fst (L ! 0)) ! 3 = in_path \<and> argv (fst (L ! 0)) ! 4 = ''-vf'' \<and>
        argv (fst (L ! 0)) ! 5 = vf fps max_w" if ne: "L \<noteq> []"
  proof -
    obtain ffmpeg delay td where
      "get_ffmpeg_exe env = Inr ffmpeg \<and> delay_cs fps = Inr delay \<and>
       mkdtemp env (files w) = Inr td"
      using ex ne by blast
    then have m: "map fst L =
          take (length L)
            [extract_cmd ffmpeg in_path (vf fps max_w) (path_join td ''f_%06d.png''),
             palette_cmd ffmpeg in_path (vf fps max_w) (path_join td ''palette.png''),
             assemble_cmd (the (find_imagemagick env)) delay (path_join td ''f_*.png'')
               (path_join td ''palette.png'') (dither_arg dither) out_path]"
      using cmds by blast
    have "0 < length L" using ne by simp
    then have "fst (L ! 0) = map fst L ! 0" by simp
    also have "\<dots> = extract_cmd ffmpeg in_path (vf fps max_w) (path_join td ''f_%06d.png'')"
      unfolding m using \<open>0 < length L\<close> by simp
    finally show ?thesis by (simp add: extract_cmd_def)
  qed
  have second: "argv (fst (L ! 1)) ! 3 = in_path \<and> argv (fst (L ! 1)) ! 4 = ''-vf'' \<and>
        argv (fst (L ! 1)) ! 5 = argv (fst (L ! 0)) ! 5 @ '',palettegen=stats_mode=full''"
    if len: "2 \<le> length L"
  proof -
    have ne: "L \<noteq> []" using len by auto
    obtain ffmpeg delay td where
      "get_ffmpeg_exe env = Inr ffmpeg \<and> delay_cs fps = Inr delay \<and>
       mkdtemp env (files w) = Inr td"
      using ex ne by blast
    then have m: "map fst L =
          take (length L)
            [extract_cmd ffmpeg in_path (vf fps max_w) (path_join td ''f_%06d.png''),
             palette_cmd ffmpeg in_path (vf fps max_w) (path_join td ''palette.png''),
             assemble_cmd (the (find_imagemagick env)) delay (path_join td ''f_*.png'')
               (path_join td ''palette.png'') (dither_arg dither) out_path]"
      using cmds by blast
    have l1: "1 < length L" using len by simp
    then have "fst (L ! 1) = map fst L ! 1" by simp
    also have "\<dots> = palette_cmd ffmpeg in_path (vf fps max_w) (path_join td ''palette.png'')"
      unfolding m using l1 by simp
    finally show ?thesis using first [OF ne] by (simp add: palette_cmd_def)
  qed
  have goes_on: "2 \<le> length L"
    if h: "L \<noteq> [] \<and> check_outcome (fst (L ! 0)) (snd (L ! 0)) = Inr ()"
  proof (rule ccontr)
    assume "\<not> 2 \<le> length L"
    moreover have "0 < length L" using h by simp
    ultimately have one: "length L = 1" by arith
    then have "last L = L ! 0" using h by (simp add: last_conv_nth)
    then have "fst ?M = Inr ()" using res h by simp
    moreover have "\<exists>e. fst ?M = Inl e" using short h one by simp
    ultimately show False by auto
  qed
  show "(\<forall>ffmpeg delay td.
        get_ffmpeg_exe env = Inr ffmpeg \<and> truthy_str (find_imagemagick env) \<and>
        delay_cs fps = Inr delay \<and> mkdtemp env (files w) = Inr td \<longrightarrow> L \<noteq> []) \<and>
     (L \<noteq> [] \<longrightarrow>
        argv (fst (L ! 0)) ! 3 = in_path \<and> argv (fst (L ! 0)) ! 4 = ''-vf'' \<and>
        argv (fst (L ! 0)) ! 5 = vf fps max_w) \<and>
     (L \<noteq> [] \<and> check_outcome (fst (L ! 0)) (snd (L ! 0)) = Inr () \<longrightarrow> 2 \<le> length L) \<and>
     (2 \<le> length L \<longrightarrow>
        argv (fst (L ! 1)) ! 3 = in_path \<and> argv (fst (L ! 1)) ! 4 = ''-vf'' \<and>
        argv (fst (L ! 1)) ! 5 = argv (fst (L ! 0)) ! 5 @ '',palettegen=stats_mode=full'')"
    using reach first second goes_on by blast
qed

theorem palette_stage_reuses_extract_filter_witness:
  "get_ffmpeg_exe (sample_env only_magick all_succeed) = Inr ''/usr/bin/ffmpeg'' \<and>
   truthy_str (find_imagemagick (sample_env only_magick all_succeed)) \<and>
   delay_cs 15 = Inr 7 \<and>
   mkdtemp (sample_env only_magick all_succeed) (files world0) = Inr ''/tmp/tmpw'' \<and>
   length (new_started world0
      (snd (make_gif_im (sample_env only_magick all_succeed) ''/in/clip.webm''
         ''/out/clip.gif'' 15 None None world0))) = 3 \<and>
   check_outcome
     (fst (new_started world0
        (snd (make_gif_im (sample_env only_magick all_succeed) ''/in/clip.webm''
           ''/out/clip.gif'' 15 None None world0)) ! 0))
     (snd (new_started world0
        (snd (make_gif_im (sample_env only_magick all_succeed) ''/in/clip.webm''
           ''/out/clip.gif'' 15 None None world0)) ! 0)) = Inr () \<and>
   argv (fst (new_started world0
      (snd (make_gif_im (sample_env only_magick all_succeed) ''/in/clip.webm''
         ''/out/clip.gif'' 15 None None world0)) ! 0)) ! 5 = ''fps=15,format=rgba'' \<and>
   argv (fst (new_started world0
      (snd (make_gif_im (sample_env only_magick all_succeed) ''/in/clip.webm''
         ''/out/clip.gif'' 15 None None world0)) ! 1)) ! 5 =
     ''fps=15,format=rgba,palettegen=stats_mode=full''"
  using palette_stage_reuses_extract_filter [of world0 "sample_env only_magick all_succeed"
      "''/in/clip.webm''" "''/out/clip.gif''" 15 None None]
  by (simp add: make_gif_im_all_succeed new_started_def world0_fields sample_env_fields
      find_only_magick truthy_str_def delay_cs_15 vf_15_None check_outcome_def
      extract_cmd_def palette_cmd_def)

text \<open>
  Claim C6 as stated fails: with neither tool on the search path, a failed lookup of the
  transcoder is what the conversion raises, not the error with the install hint.
\<close>

theorem transcoder_lookup_fails_first:
  "which (no_ffmpeg (sample_env no_tool extract_fails)) ''magick'' = None \<and>
   which (no_ffmpeg (sample_env no_tool extract_fails)) ''convert'' = None \<and>
   make_gif_im (no_ffmpeg (sample_env no_tool extract_fails)) ''/in/clip.webm''
     ''/out/clip.gif'' 15 None None world0 =
     (Inl (RuntimeError ''No ffmpeg exe could be found.''), world0) \<and>
   RuntimeError ''No ffmpeg exe could be found.'' \<noteq> RuntimeError im_not_found"
  by (simp add: no_ffmpeg_def sample_env_def no_tool_def make_gif_im_def im_not_found_def)





text \<open>
  Claim C9, as the code has it. The assemble command names the dither that the caller of the
  executor passes, after \<^verbatim>\<open>-dither\<close>; a caller that passes none gets
  \<^verbatim>\<open>FloydSteinberg\<close>; the program always passes \<^verbatim>\<open>Riemersma\<close>.
\<close>

theorem dither_of_the_assemble_stage:
  "dither_arg (Some d) = d \<and> dither_arg None = ''FloydSteinberg'' \<and>
   (\<forall>L. L = new_started w (snd (make_gif_im env in_path out_path fps max_w dither w)) \<and>
        length L = 3 \<longrightarrow>
        (\<exists>im delay frames_glob palette.
           fst (L ! 2) =
             assemble_cmd im delay frames_glob palette (dither_arg dither) out_path)) \<and>
   (\<exists>pre post.
      assemble_cmd im delay frames_glob palette d out_path =
        Shell (pre @ '' -dither '' @ d @ '' '' @ post)) \<and>
   conversion env u in_path out_path fps max_w w =
     (case make_gif_im env in_path out_path fps max_w (Some ''Riemersma'')
             (show_dialog (ShowInfo ''Converting'') w) of
        (Inl e, w2) \<Rightarrow> report_failure env e w2
      | (Inr r, w2) \<Rightarrow> open_folder_step env u out_path (show_dialog (ShowInfo ''Done'') w2))"
proof -
  let ?M = "make_gif_im env in_path out_path fps max_w dither w"
  define L where "L = new_started w (snd ?M)"
  have L: "\<forall>ffmpeg delay td.
        get_ffmpeg_exe env = Inr ffmpeg \<and> delay_cs fps = Inr delay \<and>
        mkdtemp env (files w) = Inr td \<longrightarrow>
        map fst L =
          take (length L)
            [extract_cmd ffmpeg in_path (vf fps max_w) (path_join td ''f_%06d.png''),
             palette_cmd ffmpeg in_path (vf fps max_w) (path_join td ''palette.png''),
             assemble_cmd (the (find_imagemagick env)) delay (path_join td ''f_*.png'')
               (path_join td ''palette.png'') (dither_arg dither) out_path]"
    "L \<noteq> [] \<longrightarrow>
        (\<exists>ffmpeg delay td.
           get_ffmpeg_exe env = Inr ffmpeg \<and> delay_cs fps = Inr delay \<and>
           mkdtemp env (files w) = Inr td)"
    unfolding L_def by (rule executor_trace(7), rule executor_trace(11))
  have nl: "new_started w (snd ?M) = L" by (simp add: L_def)
  have a: "\<exists>im delay frames_glob palette.
      fst (L ! 2) = assemble_cmd im delay frames_glob palette (dither_arg dither) out_path"
    if len: "length L = 3"
  proof -
    have "L \<noteq> []" using len by auto
    then obtain ffmpeg delay td where
      "get_ffmpeg_exe env = Inr ffmpeg" "delay_cs fps = Inr delay"
      "mkdtemp env (files w) = Inr td"
      using L(2) by blast
    then have "map fst L =
        [extract_cmd ffmpeg in_path (vf fps max_w) (path_join td ''f_%06d.png''),
         palette_cmd ffmpeg in_path (vf fps max_w) (path_join td ''palette.png''),
         assemble_cmd (the (find_imagemagick env)) delay (path_join td ''f_*.png'')
           (path_join td ''palette.png'') (dither_arg dither) out_path]"
      using L(1) len by simp
    then have "map fst L ! 2 =
        assemble_cmd (the (find_imagemagick env)) delay (path_join td ''f_*.png'')
          (path_join td ''palette.png'') (dither_arg dither) out_path"
      by simp
    then have "fst (L ! 2) =
        assemble_cmd (the (find_imagemagick env)) delay (path_join td ''f_*.png'')
          (path_join td ''palette.png'') (dither_arg dither) out_path"
      using len by simp
    then show ?thesis by blast
  qed
  have b: "\<exists>pre post.
      assemble_cmd im delay frames_glob palette d out_path =
        Shell (pre @ '' -dither '' @ d @ '' '' @ post)"
    by (rule exI [of _ "[dquote] @ im @ [dquote] @ '' -delay '' @ str_int delay @ '' -loop 0 '' @
            [dquote] @ frames_glob @ [dquote] @ '' -remap '' @ [dquote] @ palette @ [dquote]"],
        rule exI [of _ "''-layers OptimizeTransparency '' @ [dquote] @ out_path @ [dquote]"])
      (simp add: assemble_cmd_def)
  show ?thesis
    unfolding nl using a b by (simp add: dither_arg_def conversion_def)
qed

theorem dither_of_the_assemble_stage_witness:
  "length (new_started world0
      (snd (make_gif_im (sample_env only_magick all_succeed) ''/in/clip.webm''
         ''/out/clip.gif'' 15 None (Some ''Riemersma'') world0))) = 3 \<and>
   fst (new_started world0
      (snd (make_gif_im (sample_env only_magick all_succeed) ''/in/clip.webm''
         ''/out/clip.gif'' 15 None (Some ''Riemersma'') world0)) ! 2) =
     assemble_cmd ''/usr/bin/magick'' 7 ''/tmp/tmpw/f_*.png'' ''/tmp/tmpw/palette.png''
       ''Riemersma'' ''/out/clip.gif''"
  using dither_of_the_assemble_stage [of "''Riemersma''" world0
      "sample_env only_magick all_succeed" "''/in/clip.webm''" "''/out/clip.gif''" 15 None
      "Some ''Riemersma''"]
  by (simp add: make_gif_im_all_succeed new_started_def world0_fields dither_arg_def)

text \<open>
  Claim C9 as stated fails: called without a dither, the executor assembles with
  \<^verbatim>\<open>FloydSteinberg\<close>, not with \<^verbatim>\<open>Riemersma\<close>.
\<close>

theorem default_dither_is_floyd_steinberg:
  "fst (new_started world0
      (snd (make_gif_im (sample_env only_magick all_succeed) ''/in/clip.webm''
         ''/out/clip.gif'' 15 None None world0)) ! 2) =
     assemble_cmd ''/usr/bin/magick'' 7 ''/tmp/tmpw/f_*.png'' ''/tmp/tmpw/palette.png''
       ''FloydSteinberg'' ''/out/clip.gif'' \<and>
   assemble_cmd ''/usr/bin/magick'' 7 ''/tmp/tmpw/f_*.png'' ''/tmp/tmpw/palette.png''
       ''FloydSteinberg'' ''/out/clip.gif'' \<noteq>
   assemble_cmd ''/usr/bin/magick'' 7 ''/tmp/tmpw/f_*.png'' ''/tmp/tmpw/palette.png''
       ''Riemersma'' ''/out/clip.gif''"
  by (simp add: make_gif_im_all_succeed new_started_def world0_fields dither_arg_def
      assemble_cmd_def)

end
